theory Spec2Isabelle
  imports Main "HOL-Library.AList"
begin

section \<open>Data model (shared/schema.ts)\<close>

text \<open>
  The entity types of \<^verbatim>\<open>shared/schema.ts\<close>, one record per table. Field names are the
  source's names behind a short prefix per entity (\<open>fr_postId\<close> is \<^verbatim>\<open>ForumReply.postId\<close>),
  because several entities share \<^verbatim>\<open>id\<close>, \<^verbatim>\<open>userId\<close> and \<^verbatim>\<open>createdAt\<close>. Identifiers,
  scores and counters are the schema's integer columns and are modelled as \<open>int\<close>; a
  \<^verbatim>\<open>Date\<close> is its time value; a nullable column is an \<open>option\<close>.
\<close>

type_synonym timestamp = int

record User =
  u_id :: int
  u_username :: string
  u_password :: string
  u_displayName :: string
  u_email :: string
  u_avatar :: "string option"
  u_bio :: "string option"
  u_role :: string
  u_level :: string
  u_createdAt :: timestamp

record Event =
  ev_id :: int
  ev_title :: string
  ev_description :: string
  ev_eventType :: string
  ev_date :: timestamp
  ev_duration :: int
  ev_location :: string
  ev_createdBy :: int
  ev_createdAt :: timestamp

record InsertEvent =
  ie_title :: string
  ie_description :: string
  ie_eventType :: string
  ie_date :: timestamp
  ie_duration :: int
  ie_location :: string
  ie_createdBy :: int

record EventRegistration =
  er_id :: int
  er_eventId :: int
  er_userId :: int
  er_registeredAt :: timestamp

record InsertEventRegistration =
  ier_eventId :: int
  ier_userId :: int

record ContestResult =
  cr_id :: int
  cr_eventId :: int
  cr_userId :: int
  cr_position :: "int option"
  cr_score :: int
  cr_createdAt :: timestamp

record ForumPost =
  fp_id :: int
  fp_title :: string
  fp_content :: string
  fp_userId :: int
  fp_views :: int
  fp_createdAt :: timestamp
  fp_updatedAt :: timestamp
  fp_tags :: "string list option"

record ForumReply =
  fr_id :: int
  fr_postId :: int
  fr_content :: string
  fr_userId :: int
  fr_upvotes :: int
  fr_createdAt :: timestamp
  fr_updatedAt :: timestamp
  fr_isBestAnswer :: bool

record InsertForumReply =
  ifr_postId :: int
  ifr_content :: string
  ifr_userId :: int

text \<open>
  \<^verbatim>\<open>Partial<ForumReply>\<close>: every property may be absent (\<open>None\<close>).
\<close>

record PartialForumReply =
  pfr_id :: "int option"
  pfr_postId :: "int option"
  pfr_content :: "string option"
  pfr_userId :: "int option"
  pfr_upvotes :: "int option"
  pfr_createdAt :: "timestamp option"
  pfr_updatedAt :: "timestamp option"
  pfr_isBestAnswer :: "bool option"

record Resource =
  rs_id :: int
  rs_title :: string
  rs_description :: string
  rs_content :: "string option"
  rs_resourceType :: string
  rs_link :: "string option"
  rs_userId :: int
  rs_createdAt :: timestamp
  rs_updatedAt :: timestamp

record InsertResource =
  ir_title :: string
  ir_description :: string
  ir_content :: "string option"
  ir_resourceType :: string
  ir_link :: "string option"
  ir_userId :: int

section \<open>The in-memory store (class MemStorage)\<close>

text \<open>
  A JavaScript \<^verbatim>\<open>Map<number, V>\<close> keeps its entries in insertion order with unique
  keys. It is an association list: \<^verbatim>\<open>get\<close> is \<^const>\<open>map_of\<close>, \<^verbatim>\<open>set\<close> is
  \<^const>\<open>AList.update\<close> (replace in place, or append a new key), \<^verbatim>\<open>delete\<close> is
  \<^const>\<open>AList.delete\<close>, \<^verbatim>\<open>values()\<close> is \<open>map snd\<close>.
\<close>

type_synonym 'v jsmap = "(int \<times> 'v) list"

record MemStorage =
  users :: "User jsmap"
  events :: "Event jsmap"
  eventRegistrations :: "EventRegistration jsmap"
  contestResults :: "ContestResult jsmap"
  forumPosts :: "ForumPost jsmap"
  forumReplies :: "ForumReply jsmap"
  resources :: "Resource jsmap"
  userId :: int
  eventId :: int
  eventRegistrationId :: int
  contestResultId :: int
  forumPostId :: int
  forumReplyId :: int
  resourceId :: int

text \<open>
  The exceptions of the modelled storage methods: \<^verbatim>\<open>Error("Reply not found")\<close>,
  \<^verbatim>\<open>Error("Reply not found or doesn't belong to the specified post")\<close>, and the error
  of the database for a parameter that does not fit the \<^verbatim>\<open>INTEGER\<close> column it is
  compared with (\<^verbatim>\<open>integer out of range\<close>).
\<close>

datatype error =
  ReplyNotFound
  | ReplyNotFoundOrWrongPost
  | IntegerOutOfRange

subsection \<open>Forum replies\<close>

definition getForumReply :: "int \<Rightarrow> MemStorage \<Rightarrow> ForumReply option" where
  "getForumReply rid st = map_of (forumReplies st) rid"

definition getForumPost :: "int \<Rightarrow> MemStorage \<Rightarrow> ForumPost option" where
  "getForumPost pid st = map_of (forumPosts st) pid"

text \<open>
  \<^verbatim>\<open>createForumReply\<close>: \<^verbatim>\<open>id = this.forumReplyId++\<close>, the new reply starts with no
  upvotes and is not a best answer.
\<close>

definition createForumReply ::
  "InsertForumReply \<Rightarrow> timestamp \<Rightarrow> MemStorage \<Rightarrow> ForumReply \<times> MemStorage" where
  "createForumReply insertReply now st =
     (let i = forumReplyId st;
          reply = \<lparr> fr_id = i, fr_postId = ifr_postId insertReply,
                    fr_content = ifr_content insertReply, fr_userId = ifr_userId insertReply,
                    fr_upvotes = 0, fr_createdAt = now, fr_updatedAt = now,
                    fr_isBestAnswer = False \<rparr>
      in (reply, st\<lparr> forumReplyId := i + 1,
                      forumReplies := AList.update i reply (forumReplies st) \<rparr>))"

definition upvoteForumReply :: "int \<Rightarrow> MemStorage \<Rightarrow> (error + ForumReply) \<times> MemStorage" where
  "upvoteForumReply rid st =
     (case map_of (forumReplies st) rid of
        None \<Rightarrow> (Inl ReplyNotFound, st)
      | Some reply \<Rightarrow>
          (let reply' = reply\<lparr> fr_upvotes := fr_upvotes reply + 1 \<rparr>
           in (Inr reply', st\<lparr> forumReplies := AList.update rid reply' (forumReplies st) \<rparr>)))"

text \<open>
  The object spread \<^verbatim>\<open>{ ...reply, ...replyData, updatedAt: now }\<close>: a property present
  in \<^verbatim>\<open>replyData\<close> overrides the stored one, and \<^verbatim>\<open>updatedAt\<close> is always \<^verbatim>\<open>now\<close>.
\<close>

definition spreadReply :: "ForumReply \<Rightarrow> PartialForumReply \<Rightarrow> timestamp \<Rightarrow> ForumReply" where
  "spreadReply reply replyData now =
     \<lparr> fr_id = (case pfr_id replyData of None \<Rightarrow> fr_id reply | Some v \<Rightarrow> v),
       fr_postId = (case pfr_postId replyData of None \<Rightarrow> fr_postId reply | Some v \<Rightarrow> v),
       fr_content = (case pfr_content replyData of None \<Rightarrow> fr_content reply | Some v \<Rightarrow> v),
       fr_userId = (case pfr_userId replyData of None \<Rightarrow> fr_userId reply | Some v \<Rightarrow> v),
       fr_upvotes = (case pfr_upvotes replyData of None \<Rightarrow> fr_upvotes reply | Some v \<Rightarrow> v),
       fr_createdAt = (case pfr_createdAt replyData of None \<Rightarrow> fr_createdAt reply | Some v \<Rightarrow> v),
       fr_updatedAt = now,
       fr_isBestAnswer =
         (case pfr_isBestAnswer replyData of None \<Rightarrow> fr_isBestAnswer reply | Some v \<Rightarrow> v) \<rparr>"

definition updateForumReply ::
  "int \<Rightarrow> PartialForumReply \<Rightarrow> timestamp \<Rightarrow> MemStorage \<Rightarrow> ForumReply option \<times> MemStorage" where
  "updateForumReply rid replyData now st =
     (case map_of (forumReplies st) rid of
        None \<Rightarrow> (None, st)
      | Some reply \<Rightarrow>
          (let updatedReply = spreadReply reply replyData now
           in (Some updatedReply,
               st\<lparr> forumReplies := AList.update rid updatedReply (forumReplies st) \<rparr>)))"

definition deleteForumReply :: "int \<Rightarrow> MemStorage \<Rightarrow> bool \<times> MemStorage" where
  "deleteForumReply rid st =
     (map_of (forumReplies st) rid \<noteq> None,
      st\<lparr> forumReplies := AList.delete rid (forumReplies st) \<rparr>)"

text \<open>
  The first loop of \<^verbatim>\<open>markAsBestAnswer\<close> visits every entry and, where the reply belongs
  to the post and is a best answer, clears the flag on the stored object
  (\<^verbatim>\<open>reply.isBestAnswer = false\<close>; the \<^verbatim>\<open>set\<close> that follows stores the same object under
  its own key again).
\<close>

fun resetBestAnswers :: "int \<Rightarrow> ForumReply jsmap \<Rightarrow> ForumReply jsmap" where
  "resetBestAnswers postId [] = []"
| "resetBestAnswers postId ((i, reply) # entries) =
     (if fr_postId reply = postId \<and> fr_isBestAnswer reply
      then (i, reply\<lparr> fr_isBestAnswer := False \<rparr>)
      else (i, reply)) # resetBestAnswers postId entries"

text \<open>
  \<^verbatim>\<open>markAsBestAnswer\<close>: the reset loop runs first; only then is the reply looked up, and
  \<^verbatim>\<open>throw new Error("Reply not found")\<close> leaves the store as the loop made it.
\<close>

definition markAsBestAnswer ::
  "int \<Rightarrow> int \<Rightarrow> MemStorage \<Rightarrow> (error + ForumReply) \<times> MemStorage" where
  "markAsBestAnswer postId replyId st =
     (let cleared = resetBestAnswers postId (forumReplies st)
      in case map_of cleared replyId of
           None \<Rightarrow> (Inl ReplyNotFound, st\<lparr> forumReplies := cleared \<rparr>)
         | Some reply \<Rightarrow>
             (let reply' = reply\<lparr> fr_isBestAnswer := True \<rparr>
              in (Inr reply', st\<lparr> forumReplies := AList.update replyId reply' cleared \<rparr>)))"

text \<open>
  \<^verbatim>\<open>deleteForumPost\<close>: the loop deletes every entry whose reply has \<^verbatim>\<open>postId === id\<close>,
  then the post itself; the result is that of \<^verbatim>\<open>Map.delete\<close> on the posts. The
  loop walks the entries the map held when it started: with unique keys a deletion removes
  only the entry being visited, so no entry is skipped or visited twice.
\<close>

fun deleteRepliesLoop :: "int \<Rightarrow> ForumReply jsmap \<Rightarrow> ForumReply jsmap \<Rightarrow> ForumReply jsmap" where
  "deleteRepliesLoop pid [] m = m"
| "deleteRepliesLoop pid ((replyId, reply) # entries) m =
     (if fr_postId reply = pid
      then deleteRepliesLoop pid entries (AList.delete replyId m)
      else deleteRepliesLoop pid entries m)"

definition deleteForumPost :: "int \<Rightarrow> MemStorage \<Rightarrow> bool \<times> MemStorage" where
  "deleteForumPost pid st =
     (map_of (forumPosts st) pid \<noteq> None,
      st\<lparr> forumReplies := deleteRepliesLoop pid (forumReplies st) (forumReplies st),
          forumPosts := AList.delete pid (forumPosts st) \<rparr>)"

subsection \<open>The best-answer invariant and sequences of reply operations\<close>

text \<open>
  The replies of post \<open>P\<close> that are flagged as best answer, and the invariant of the data
  model: no post has more than one.
\<close>

definition bestAnswersOf :: "int \<Rightarrow> MemStorage \<Rightarrow> ForumReply list" where
  "bestAnswersOf P st =
     filter (\<lambda>reply. fr_postId reply = P \<and> fr_isBestAnswer reply) (map snd (forumReplies st))"

definition atMostOneBest :: "MemStorage \<Rightarrow> bool" where
  "atMostOneBest st = (\<forall>P. length (bestAnswersOf P st) \<le> 1)"

definition bestCount :: "int \<Rightarrow> ForumReply jsmap \<Rightarrow> nat" where
  "bestCount P rs =
     length (filter (\<lambda>(i, reply). fr_postId reply = P \<and> fr_isBestAnswer reply) rs)"

text \<open>The storage operations that write forum replies, as calls.\<close>

datatype ForumOp =
  CreateForumReply InsertForumReply timestamp
  | UpdateForumReply int PartialForumReply timestamp
  | UpvoteForumReply int
  | MarkAsBestAnswer int int
  | DeleteForumReply int
  | DeleteForumPost int

fun applyOp :: "ForumOp \<Rightarrow> MemStorage \<Rightarrow> MemStorage" where
  "applyOp (CreateForumReply insertReply now) st = snd (createForumReply insertReply now st)"
| "applyOp (UpdateForumReply rid replyData now) st = snd (updateForumReply rid replyData now st)"
| "applyOp (UpvoteForumReply rid) st = snd (upvoteForumReply rid st)"
| "applyOp (MarkAsBestAnswer postId replyId) st = snd (markAsBestAnswer postId replyId st)"
| "applyOp (DeleteForumReply rid) st = snd (deleteForumReply rid st)"
| "applyOp (DeleteForumPost pid) st = snd (deleteForumPost pid st)"

fun applyOps :: "ForumOp list \<Rightarrow> MemStorage \<Rightarrow> MemStorage" where
  "applyOps [] st = st"
| "applyOps (op # ops) st = applyOps ops (applyOp op st)"

text \<open>
  The calls that leave the flags to \<^const>\<open>markAsBestAnswer\<close>: an update whose data neither
  sets \<^verbatim>\<open>isBestAnswer\<close> to true nor moves the reply to another post, and a
  \<^verbatim>\<open>markAsBestAnswer(postId, replyId)\<close> whose reply, when it exists, belongs to \<^verbatim>\<open>postId\<close>
  (the best-answer route always passes \<^verbatim>\<open>reply.postId\<close>).
\<close>

fun opKeepsFlags :: "MemStorage \<Rightarrow> ForumOp \<Rightarrow> bool" where
  "opKeepsFlags st (UpdateForumReply rid replyData now) =
     (pfr_isBestAnswer replyData \<noteq> Some True \<and> pfr_postId replyData = None)"
| "opKeepsFlags st (MarkAsBestAnswer postId replyId) =
     (case getForumReply replyId st of None \<Rightarrow> True | Some reply \<Rightarrow> fr_postId reply = postId)"
| "opKeepsFlags st _ = True"

fun opsKeepFlags :: "MemStorage \<Rightarrow> ForumOp list \<Rightarrow> bool" where
  "opsKeepFlags st [] = True"
| "opsKeepFlags st (op # ops) = (opKeepsFlags st op \<and> opsKeepFlags (applyOp op st) ops)"

subsection \<open>A small forum\<close>

text \<open>
  Two posts; replies 1 and 2 belong to post 1, reply 3 to post 2, and reply 1 is the
  best answer of post 1.
\<close>

definition sampleReply :: "int \<Rightarrow> int \<Rightarrow> bool \<Rightarrow> ForumReply" where
  "sampleReply i p b =
     \<lparr> fr_id = i, fr_postId = p, fr_content = ''reply'', fr_userId = 1, fr_upvotes = 0,
       fr_createdAt = 0, fr_updatedAt = 0, fr_isBestAnswer = b \<rparr>"

definition samplePost :: "int \<Rightarrow> int \<Rightarrow> ForumPost" where
  "samplePost i u =
     \<lparr> fp_id = i, fp_title = ''post'', fp_content = ''question'', fp_userId = u, fp_views = 0,
       fp_createdAt = 0, fp_updatedAt = 0, fp_tags = None \<rparr>"

definition sampleUser :: "int \<Rightarrow> string \<Rightarrow> string \<Rightarrow> User" where
  "sampleUser i name r =
     \<lparr> u_id = i, u_username = name, u_password = ''hash'', u_displayName = name,
       u_email = name @ ''@dsac.com'', u_avatar = None, u_bio = None, u_role = r,
       u_level = ''beginner'', u_createdAt = 0 \<rparr>"

definition sampleForum :: MemStorage where
  "sampleForum =
     \<lparr> users = [(1, sampleUser 1 ''admin'' ''admin''), (2, sampleUser 2 ''ann'' ''member'')],
       events = [], eventRegistrations = [], contestResults = [],
       forumPosts = [(1, samplePost 1 2), (2, samplePost 2 2)],
       forumReplies = [(1, sampleReply 1 1 True), (2, sampleReply 2 1 False),
                       (3, sampleReply 3 2 False)],
       resources = [],
       userId = 3, eventId = 1, eventRegistrationId = 1, contestResultId = 1,
       forumPostId = 3, forumReplyId = 4, resourceId = 1 \<rparr>"

definition sampleOps :: "ForumOp list" where
  "sampleOps =
     [MarkAsBestAnswer 1 2, UpvoteForumReply 2,
      CreateForumReply \<lparr> ifr_postId = 1, ifr_content = ''new'', ifr_userId = 2 \<rparr> 10,
      UpdateForumReply 3 \<lparr> pfr_id = None, pfr_postId = None, pfr_content = Some ''edited'',
        pfr_userId = None, pfr_upvotes = None, pfr_createdAt = None, pfr_updatedAt = None,
        pfr_isBestAnswer = None \<rparr> 11,
      DeleteForumReply 1, DeleteForumPost 2]"

text \<open>An update that does nothing but set \<^verbatim>\<open>isBestAnswer: true\<close>.\<close>

definition flagOnly :: PartialForumReply where
  "flagOnly =
     \<lparr> pfr_id = None, pfr_postId = None, pfr_content = None, pfr_userId = None,
       pfr_upvotes = None, pfr_createdAt = None, pfr_updatedAt = None,
       pfr_isBestAnswer = Some True \<rparr>"

text \<open>What the reset loop does to one reply.\<close>

definition clearFlag :: "int \<Rightarrow> ForumReply \<Rightarrow> ForumReply" where
  "clearFlag P reply =
     (if fr_postId reply = P \<and> fr_isBestAnswer reply
      then reply\<lparr> fr_isBestAnswer := False \<rparr> else reply)"

subsection \<open>Users, events, registrations, resources\<close>

text \<open>
  \<^verbatim>\<open>InsertUser\<close> is the picked insert schema; at run time the object may carry further
  properties, of which \<^verbatim>\<open>role\<close> and \<^verbatim>\<open>level\<close> are kept here (\<open>None\<close> when absent).
\<close>

record InsertUser =
  iu_username :: string
  iu_password :: string
  iu_displayName :: string
  iu_email :: string
  iu_avatar :: "string option"
  iu_bio :: "string option"
  iu_role :: "string option"
  iu_level :: "string option"

record InsertContestResult =
  icr_eventId :: int
  icr_userId :: int
  icr_position :: "int option"
  icr_score :: int

text \<open>
  \<^verbatim>\<open>x || null\<close>: a missing, null or empty string gives null, and so does the number 0.
\<close>

definition orNull :: "string option \<Rightarrow> string option" where
  "orNull v = (case v of None \<Rightarrow> None | Some s \<Rightarrow> if s = [] then None else Some s)"

definition orNullNumber :: "int option \<Rightarrow> int option" where
  "orNullNumber v = (case v of None \<Rightarrow> None | Some n \<Rightarrow> if n = 0 then None else Some n)"

definition getUser :: "int \<Rightarrow> MemStorage \<Rightarrow> User option" where
  "getUser uid st = map_of (users st) uid"

text \<open>
  \<^verbatim>\<open>createUser\<close> builds \<^verbatim>\<open>{ ...insertUser, id, role: "member", level: "beginner",
  createdAt: now, avatar: insertUser.avatar || null, bio: insertUser.bio || null }\<close>: the
  properties written after the spread replace whatever the argument carries under the
  same name, so only username, password, displayName and email come from the argument.
\<close>

definition createUser :: "InsertUser \<Rightarrow> timestamp \<Rightarrow> MemStorage \<Rightarrow> User \<times> MemStorage" where
  "createUser insertUser now st =
     (let i = userId st;
          user = \<lparr> u_id = i, u_username = iu_username insertUser,
                   u_password = iu_password insertUser,
                   u_displayName = iu_displayName insertUser, u_email = iu_email insertUser,
                   u_avatar = orNull (iu_avatar insertUser), u_bio = orNull (iu_bio insertUser),
                   u_role = ''member'', u_level = ''beginner'', u_createdAt = now \<rparr>
      in (user, st\<lparr> userId := i + 1, users := AList.update i user (users st) \<rparr>))"

text \<open>
  \<^verbatim>\<open>Partial<User>\<close>, and \<^verbatim>\<open>updateUser\<close>, which stores \<^verbatim>\<open>{ ...user, ...userData }\<close>
  under the key it was called with: every property present in the data replaces the
  stored one, \<^verbatim>\<open>id\<close> included.
\<close>

record PartialUser =
  pu_id :: "int option"
  pu_username :: "string option"
  pu_password :: "string option"
  pu_displayName :: "string option"
  pu_email :: "string option"
  pu_avatar :: "string option option"
  pu_bio :: "string option option"
  pu_role :: "string option"
  pu_level :: "string option"
  pu_createdAt :: "timestamp option"

definition spreadUser :: "User \<Rightarrow> PartialUser \<Rightarrow> User" where
  "spreadUser user userData =
     \<lparr> u_id = (case pu_id userData of None \<Rightarrow> u_id user | Some v \<Rightarrow> v),
       u_username = (case pu_username userData of None \<Rightarrow> u_username user | Some v \<Rightarrow> v),
       u_password = (case pu_password userData of None \<Rightarrow> u_password user | Some v \<Rightarrow> v),
       u_displayName =
         (case pu_displayName userData of None \<Rightarrow> u_displayName user | Some v \<Rightarrow> v),
       u_email = (case pu_email userData of None \<Rightarrow> u_email user | Some v \<Rightarrow> v),
       u_avatar = (case pu_avatar userData of None \<Rightarrow> u_avatar user | Some v \<Rightarrow> v),
       u_bio = (case pu_bio userData of None \<Rightarrow> u_bio user | Some v \<Rightarrow> v),
       u_role = (case pu_role userData of None \<Rightarrow> u_role user | Some v \<Rightarrow> v),
       u_level = (case pu_level userData of None \<Rightarrow> u_level user | Some v \<Rightarrow> v),
       u_createdAt =
         (case pu_createdAt userData of None \<Rightarrow> u_createdAt user | Some v \<Rightarrow> v) \<rparr>"

definition updateUser :: "int \<Rightarrow> PartialUser \<Rightarrow> MemStorage \<Rightarrow> User option \<times> MemStorage" where
  "updateUser uid userData st =
     (case map_of (users st) uid of
        None \<Rightarrow> (None, st)
      | Some user \<Rightarrow>
          (let updatedUser = spreadUser user userData
           in (Some updatedUser, st\<lparr> users := AList.update uid updatedUser (users st) \<rparr>)))"

definition getEvent :: "int \<Rightarrow> MemStorage \<Rightarrow> Event option" where
  "getEvent eid st = map_of (events st) eid"

definition createEvent :: "InsertEvent \<Rightarrow> timestamp \<Rightarrow> MemStorage \<Rightarrow> Event \<times> MemStorage" where
  "createEvent insertEvent now st =
     (let i = eventId st;
          event = \<lparr> ev_id = i, ev_title = ie_title insertEvent,
                    ev_description = ie_description insertEvent,
                    ev_eventType = ie_eventType insertEvent, ev_date = ie_date insertEvent,
                    ev_duration = ie_duration insertEvent, ev_location = ie_location insertEvent,
                    ev_createdBy = ie_createdBy insertEvent, ev_createdAt = now \<rparr>
      in (event, st\<lparr> eventId := i + 1, events := AList.update i event (events st) \<rparr>))"

text \<open>
  \<^verbatim>\<open>getEventRegistration\<close>: the first registration, in insertion order, of this user for
  this event (\<^verbatim>\<open>Array.from(values()).find(...)\<close>).
\<close>

definition getEventRegistration :: "int \<Rightarrow> int \<Rightarrow> MemStorage \<Rightarrow> EventRegistration option" where
  "getEventRegistration eid uid st =
     find (\<lambda>reg. er_eventId reg = eid \<and> er_userId reg = uid) (map snd (eventRegistrations st))"

definition createEventRegistration ::
  "InsertEventRegistration \<Rightarrow> timestamp \<Rightarrow> MemStorage \<Rightarrow> EventRegistration \<times> MemStorage" where
  "createEventRegistration insertRegistration now st =
     (let i = eventRegistrationId st;
          registration = \<lparr> er_id = i, er_eventId = ier_eventId insertRegistration,
                           er_userId = ier_userId insertRegistration, er_registeredAt = now \<rparr>
      in (registration,
          st\<lparr> eventRegistrationId := i + 1,
              eventRegistrations := AList.update i registration (eventRegistrations st) \<rparr>))"

definition createContestResult ::
  "InsertContestResult \<Rightarrow> timestamp \<Rightarrow> MemStorage \<Rightarrow> ContestResult \<times> MemStorage" where
  "createContestResult insertResult now st =
     (let i = contestResultId st;
          result = \<lparr> cr_id = i, cr_eventId = icr_eventId insertResult,
                     cr_userId = icr_userId insertResult,
                     cr_position = orNullNumber (icr_position insertResult),
                     cr_score = icr_score insertResult, cr_createdAt = now \<rparr>
      in (result,
          st\<lparr> contestResultId := i + 1,
              contestResults := AList.update i result (contestResults st) \<rparr>))"

definition createResource ::
  "InsertResource \<Rightarrow> timestamp \<Rightarrow> MemStorage \<Rightarrow> Resource \<times> MemStorage" where
  "createResource insertResource now st =
     (let i = resourceId st;
          resource = \<lparr> rs_id = i, rs_title = ir_title insertResource,
                       rs_description = ir_description insertResource,
                       rs_content = orNull (ir_content insertResource),
                       rs_resourceType = ir_resourceType insertResource,
                       rs_link = orNull (ir_link insertResource),
                       rs_userId = ir_userId insertResource,
                       rs_createdAt = now, rs_updatedAt = now \<rparr>
      in (resource, st\<lparr> resourceId := i + 1,
                         resources := AList.update i resource (resources st) \<rparr>))"

subsection \<open>JavaScript numbers\<close>

text \<open>
  The totals of the leaderboard are JavaScript numbers, that is IEEE 754 doubles. The
  scores are integers (\<^verbatim>\<open>integer("score")\<close> in the schema), so the numbers that occur are
  the doubles with an integer value and the two infinities; \<^verbatim>\<open>NaN\<close> occurs only as the
  difference of two equal infinities in the sort comparator. \<open>Finite\<close> of an integer
  stands for the double with that value; every integer of absolute value up to \<open>2 ^ 53\<close>
  is one.
\<close>

datatype jsnumber = Finite int | PosInfinity | NegInfinity | NaN

text \<open>The number of binary digits of a natural number.\<close>

fun bitLength :: "nat \<Rightarrow> nat" where
  "bitLength n = (if n = 0 then 0 else Suc (bitLength (n div 2)))"

declare bitLength.simps [simp del]

text \<open>
  The double nearest to an integer, ties to the even significand: an integer of at most
  53 binary digits is a double; a longer one keeps its 53 leading digits \<open>q\<close> and is
  rounded on the remainder \<open>r\<close>; from \<open>2 ^ 1024\<close> on the result is an infinity.
\<close>

definition roundToDouble :: "int \<Rightarrow> jsnumber" where
  "roundToDouble x =
     (let m = nat \<bar>x\<bar>;
          e = bitLength m - 53;
          q = m div 2 ^ e;
          r = m mod 2 ^ e;
          q' = (if 2 * r > 2 ^ e \<or> (2 * r = 2 ^ e \<and> odd q) then q + 1 else q);
          v = int (q' * 2 ^ e)
      in if v \<ge> 2 ^ 1024 then (if x < 0 then NegInfinity else PosInfinity)
         else Finite (if x < 0 then - v else v))"

text \<open>\<^verbatim>\<open>a + b\<close> and \<^verbatim>\<open>a - b\<close>: the exact result, rounded.\<close>

fun jsAdd :: "jsnumber \<Rightarrow> jsnumber \<Rightarrow> jsnumber" where
  "jsAdd (Finite a) (Finite b) = roundToDouble (a + b)"
| "jsAdd NaN _ = NaN"
| "jsAdd _ NaN = NaN"
| "jsAdd PosInfinity NegInfinity = NaN"
| "jsAdd NegInfinity PosInfinity = NaN"
| "jsAdd PosInfinity _ = PosInfinity"
| "jsAdd NegInfinity _ = NegInfinity"
| "jsAdd (Finite a) PosInfinity = PosInfinity"
| "jsAdd (Finite a) NegInfinity = NegInfinity"

fun jsSub :: "jsnumber \<Rightarrow> jsnumber \<Rightarrow> jsnumber" where
  "jsSub (Finite a) (Finite b) = roundToDouble (a - b)"
| "jsSub NaN _ = NaN"
| "jsSub _ NaN = NaN"
| "jsSub PosInfinity PosInfinity = NaN"
| "jsSub NegInfinity NegInfinity = NaN"
| "jsSub PosInfinity _ = PosInfinity"
| "jsSub NegInfinity _ = NegInfinity"
| "jsSub (Finite a) PosInfinity = NegInfinity"
| "jsSub (Finite a) NegInfinity = PosInfinity"

text \<open>\<^verbatim>\<open>v < 0\<close>\<close>

fun jsNegative :: "jsnumber \<Rightarrow> bool" where
  "jsNegative (Finite x) = (x < 0)"
| "jsNegative NegInfinity = True"
| "jsNegative _ = False"

text \<open>
  \<^verbatim>\<open>Array.prototype.sort(comparator)\<close> is a stable sort: \<open>a\<close> comes before \<open>b\<close> when
  \<^verbatim>\<open>comparator(a, b) < 0\<close>, and elements that the comparator does not separate keep their
  order. For a consistent comparator that fixes the result; it is computed here by
  insertion from the right.
\<close>

fun insertSorted :: "('a \<Rightarrow> 'a \<Rightarrow> jsnumber) \<Rightarrow> 'a \<Rightarrow> 'a list \<Rightarrow> 'a list" where
  "insertSorted comparator x [] = [x]"
| "insertSorted comparator x (y # ys) =
     (if jsNegative (comparator y x) then y # insertSorted comparator x ys else x # y # ys)"

definition arraySort :: "('a \<Rightarrow> 'a \<Rightarrow> jsnumber) \<Rightarrow> 'a list \<Rightarrow> 'a list" where
  "arraySort comparator xs = foldr (insertSorted comparator) xs []"

subsection \<open>Leaderboard\<close>

record ScoreData =
  sd_userId :: int
  sd_totalScore :: jsnumber
  sd_contestCount :: jsnumber

record LeaderboardRow =
  lb_id :: int
  lb_username :: string
  lb_displayName :: string
  lb_avatar :: "string option"
  lb_level :: string
  lb_score :: jsnumber
  lb_contestCount :: jsnumber
  lb_topProblem :: string

text \<open>
  The first loop of \<^verbatim>\<open>getLeaderboard\<close>: for each contest result, in the order of the
  map, fetch the user's entry of \<^verbatim>\<open>userScores\<close> (or a fresh one with zero totals), add
  the score, add one to the contest count, and store the entry.
\<close>

fun gatherScores :: "ContestResult list \<Rightarrow> ScoreData jsmap \<Rightarrow> ScoreData jsmap" where
  "gatherScores [] userScores = userScores"
| "gatherScores (result # results) userScores =
     (let currentData =
            (case map_of userScores (cr_userId result) of
               Some d \<Rightarrow> d
             | None \<Rightarrow> \<lparr> sd_userId = cr_userId result, sd_totalScore = Finite 0,
                         sd_contestCount = Finite 0 \<rparr>);
          currentData' =
            currentData\<lparr> sd_totalScore :=
                            jsAdd (sd_totalScore currentData) (Finite (cr_score result)),
                          sd_contestCount := jsAdd (sd_contestCount currentData) (Finite 1) \<rparr>
      in gatherScores results (AList.update (cr_userId result) currentData' userScores))"

definition problems :: "string list" where
  "problems = [''Binary Tree'', ''DP'', ''Graphs'', ''Backtracking'', ''Greedy'', ''BFS/DFS'']"

text \<open>
  \<^verbatim>\<open>getRandomTopProblem\<close>; the argument stands for
  \<^verbatim>\<open>Math.floor(Math.random() * problems.length)\<close>.
\<close>

definition getRandomTopProblem :: "nat \<Rightarrow> string" where
  "getRandomTopProblem draw = problems ! (draw mod length problems)"

text \<open>
  The rows: one per entry of \<^verbatim>\<open>userScores\<close> whose user exists (the others are the
  \<^verbatim>\<open>null\<close>s that \<^verbatim>\<open>filter(Boolean)\<close> drops). \<open>rnd\<close> is the sequence of random draws, one
  consumed per row.
\<close>

fun leaderboardRows :: "User jsmap \<Rightarrow> (nat \<Rightarrow> nat) \<Rightarrow> ScoreData jsmap \<Rightarrow> LeaderboardRow list" where
  "leaderboardRows us rnd [] = []"
| "leaderboardRows us rnd ((uid, scoreData) # entries) =
     (case map_of us uid of
        None \<Rightarrow> leaderboardRows us rnd entries
      | Some user \<Rightarrow>
          \<lparr> lb_id = u_id user, lb_username = u_username user,
            lb_displayName = u_displayName user, lb_avatar = u_avatar user,
            lb_level = u_level user, lb_score = sd_totalScore scoreData,
            lb_contestCount = sd_contestCount scoreData,
            lb_topProblem = getRandomTopProblem (rnd 0) \<rparr>
          # leaderboardRows us (\<lambda>k. rnd (Suc k)) entries)"

text \<open>\<^verbatim>\<open>(a, b) => b.score - a.score\<close>\<close>

definition byScoreDescending :: "LeaderboardRow \<Rightarrow> LeaderboardRow \<Rightarrow> jsnumber" where
  "byScoreDescending a b = jsSub (lb_score b) (lb_score a)"

definition getLeaderboard :: "(nat \<Rightarrow> nat) \<Rightarrow> MemStorage \<Rightarrow> LeaderboardRow list" where
  "getLeaderboard rnd st =
     arraySort byScoreDescending
       (leaderboardRows (users st) rnd (gatherScores (map snd (contestResults st)) []))"

text \<open>
  What the leaderboard contract asks of user \<open>U\<close>: the sum of the scores, and the number
  of distinct events, over the contest results of \<open>U\<close>.
\<close>

definition resultsOf :: "int \<Rightarrow> MemStorage \<Rightarrow> ContestResult list" where
  "resultsOf U st = filter (\<lambda>result. cr_userId result = U) (map snd (contestResults st))"

definition distinctEvents :: "int \<Rightarrow> MemStorage \<Rightarrow> int" where
  "distinctEvents U st = int (length (remdups (map cr_eventId (resultsOf U st))))"

text \<open>Every user is stored under its own id.\<close>

definition usersKeyedById :: "MemStorage \<Rightarrow> bool" where
  "usersKeyedById st = list_all (\<lambda>(k, user). u_id user = k) (users st)"

text \<open>The user stored under the key \<open>k\<close> carries the id \<open>U\<close>.\<close>

definition carriesId :: "User jsmap \<Rightarrow> int \<Rightarrow> int \<Rightarrow> bool" where
  "carriesId us U k = (case map_of us k of None \<Rightarrow> False | Some user \<Rightarrow> u_id user = U)"

text \<open>
  The user stored under \<open>U\<close> carries the id \<open>U\<close>, and no user stored under another key
  that has a contest result carries it.
\<close>

definition ownsId :: "int \<Rightarrow> MemStorage \<Rightarrow> bool" where
  "ownsId U st =
     (carriesId (users st) U U \<and>
      list_all (\<lambda>result. cr_userId result = U \<or> \<not> carriesId (users st) U (cr_userId result))
        (map snd (contestResults st)))"

text \<open>
  The scores of user \<open>U\<close> are small enough for every partial sum to be a safe integer:
  their absolute values add up to at most \<open>2 ^ 53\<close>.
\<close>

definition safeScores :: "int \<Rightarrow> MemStorage \<Rightarrow> bool" where
  "safeScores U st =
     (sum_list (map (\<lambda>result. \<bar>cr_score result\<bar>) (resultsOf U st)) \<le> 2 ^ 53)"

text \<open>The running total of an entry of \<^verbatim>\<open>userScores\<close>, zero when there is none.\<close>

definition totalOf :: "ScoreData option \<Rightarrow> jsnumber" where
  "totalOf d = (case d of None \<Rightarrow> Finite 0 | Some x \<Rightarrow> sd_totalScore x)"

subsection \<open>Small contest tables\<close>

definition sampleResult :: "int \<Rightarrow> int \<Rightarrow> int \<Rightarrow> int \<Rightarrow> ContestResult" where
  "sampleResult i e u s =
     \<lparr> cr_id = i, cr_eventId = e, cr_userId = u, cr_position = None, cr_score = s,
       cr_createdAt = 0 \<rparr>"

text \<open>
  The example of the specification: users 2 and 3, results (user 2, 80), (user 2, 60),
  (user 3, 50), the two results of user 2 for different events.
\<close>

definition sampleContest :: MemStorage where
  "sampleContest =
     \<lparr> users = [(1, sampleUser 1 ''admin'' ''admin''), (2, sampleUser 2 ''ann'' ''member''),
                (3, sampleUser 3 ''bob'' ''member'')],
       events = [], eventRegistrations = [],
       contestResults = [(1, sampleResult 1 1 2 80), (2, sampleResult 2 2 2 60),
                         (3, sampleResult 3 1 3 50)],
       forumPosts = [], forumReplies = [], resources = [],
       userId = 4, eventId = 3, eventRegistrationId = 1, contestResultId = 4,
       forumPostId = 1, forumReplyId = 1, resourceId = 1 \<rparr>"

text \<open>Two results of user 2, both for event 1.\<close>

definition sameEventTwice :: MemStorage where
  "sameEventTwice =
     \<lparr> users = [(1, sampleUser 1 ''admin'' ''admin''), (2, sampleUser 2 ''ann'' ''member'')],
       events = [], eventRegistrations = [],
       contestResults = [(1, sampleResult 1 1 2 80), (2, sampleResult 2 1 2 60)],
       forumPosts = [], forumReplies = [], resources = [],
       userId = 3, eventId = 2, eventRegistrationId = 1, contestResultId = 3,
       forumPostId = 1, forumReplyId = 1, resourceId = 1 \<rparr>"

text \<open>Two results of user 2, with the scores \<open>2 ^ 53\<close> and 1.\<close>

definition largeScores :: MemStorage where
  "largeScores =
     \<lparr> users = [(1, sampleUser 1 ''admin'' ''admin''), (2, sampleUser 2 ''ann'' ''member'')],
       events = [], eventRegistrations = [],
       contestResults = [(1, sampleResult 1 1 2 9007199254740992), (2, sampleResult 2 2 2 1)],
       forumPosts = [], forumReplies = [], resources = [],
       userId = 3, eventId = 3, eventRegistrationId = 1, contestResultId = 3,
       forumPostId = 1, forumReplyId = 1, resourceId = 1 \<rparr>"

text \<open>An update of a user that does nothing but set \<^verbatim>\<open>id\<close>.\<close>

definition idOnly :: "int \<Rightarrow> PartialUser" where
  "idOnly i =
     \<lparr> pu_id = Some i, pu_username = None, pu_password = None, pu_displayName = None,
       pu_email = None, pu_avatar = None, pu_bio = None, pu_role = None, pu_level = None,
       pu_createdAt = None \<rparr>"

section \<open>The REST routes (registerRoutes)\<close>

text \<open>
  A request as the handlers read it: \<open>req_user\<close> is \<^verbatim>\<open>req.user\<close>, present exactly when
  \<^verbatim>\<open>req.isAuthenticated()\<close>; \<open>req_id\<close> is \<^verbatim>\<open>parseInt(req.params.id)\<close>, \<open>None\<close> for
  \<^verbatim>\<open>NaN\<close>; \<open>req_body\<close> is the result of the insert schema's \<^verbatim>\<open>parse(req.body)\<close>,
  \<open>None\<close> when it throws a \<^verbatim>\<open>ZodError\<close>. A response is its status code and JSON body.
\<close>

record 'b Request =
  req_user :: "User option"
  req_id :: "int option"
  req_body :: "'b option"

datatype Payload =
  Message string
  | ZodErrors
  | EventJson Event
  | RegistrationJson EventRegistration
  | ReplyJson ForumReply
  | ResourceJson Resource

type_synonym Response = "nat \<times> Payload"

text \<open>\<^verbatim>\<open>app.post("/api/events", ...)\<close>\<close>

definition post_api_events ::
  "InsertEvent Request \<Rightarrow> timestamp \<Rightarrow> MemStorage \<Rightarrow> Response \<times> MemStorage" where
  "post_api_events req now st =
     (case req_user req of
        None \<Rightarrow> ((401, Message ''Unauthorized''), st)
      | Some user \<Rightarrow>
          (case req_body req of
             None \<Rightarrow> ((400, ZodErrors), st)
           | Some eventData \<Rightarrow>
               (let (newEvent, st') =
                      createEvent (eventData\<lparr> ie_createdBy := u_id user \<rparr>) now st
                in ((201, EventJson newEvent), st'))))"

text \<open>\<^verbatim>\<open>app.post("/api/resources", ...)\<close>\<close>

definition post_api_resources ::
  "InsertResource Request \<Rightarrow> timestamp \<Rightarrow> MemStorage \<Rightarrow> Response \<times> MemStorage" where
  "post_api_resources req now st =
     (case req_user req of
        None \<Rightarrow> ((401, Message ''Unauthorized''), st)
      | Some user \<Rightarrow>
          (case req_body req of
             None \<Rightarrow> ((400, ZodErrors), st)
           | Some resourceData \<Rightarrow>
               (let (newResource, st') =
                      createResource (resourceData\<lparr> ir_userId := u_id user \<rparr>) now st
                in ((201, ResourceJson newResource), st'))))"

text \<open>\<^verbatim>\<open>app.post("/api/events/:id/register", ...)\<close>\<close>

definition post_api_events_register ::
  "unit Request \<Rightarrow> timestamp \<Rightarrow> MemStorage \<Rightarrow> Response \<times> MemStorage" where
  "post_api_events_register req now st =
     (case req_user req of
        None \<Rightarrow> ((401, Message ''Unauthorized''), st)
      | Some user \<Rightarrow>
          (case req_id req of
             None \<Rightarrow> ((400, Message ''Invalid event ID''), st)
           | Some eid \<Rightarrow>
               (case getEvent eid st of
                  None \<Rightarrow> ((404, Message ''Event not found''), st)
                | Some event \<Rightarrow>
                    (case getEventRegistration eid (u_id user) st of
                       Some existingRegistration \<Rightarrow>
                         ((400, Message ''Already registered for this event''), st)
                     | None \<Rightarrow>
                         (let (registration, st') =
                                createEventRegistration
                                  \<lparr> ier_eventId = eid, ier_userId = u_id user \<rparr> now st
                          in ((201, RegistrationJson registration), st'))))))"

text \<open>
  \<^verbatim>\<open>app.post("/api/forum/reply/:id/best-answer", ...)\<close>; an exception of the storage
  call is caught and answered with 500.
\<close>

definition post_api_forum_reply_best_answer ::
  "unit Request \<Rightarrow> MemStorage \<Rightarrow> Response \<times> MemStorage" where
  "post_api_forum_reply_best_answer req st =
     (case req_user req of
        None \<Rightarrow> ((401, Message ''Unauthorized''), st)
      | Some user \<Rightarrow>
          (case req_id req of
             None \<Rightarrow> ((400, Message ''Invalid reply ID''), st)
           | Some replyId \<Rightarrow>
               (case getForumReply replyId st of
                  None \<Rightarrow> ((404, Message ''Reply not found''), st)
                | Some reply \<Rightarrow>
                    (case getForumPost (fr_postId reply) st of
                       None \<Rightarrow> ((404, Message ''Post not found''), st)
                     | Some post \<Rightarrow>
                         if fp_userId post \<noteq> u_id user \<and> u_role user \<noteq> ''admin''
                         then ((403, Message ''Only the post author can mark a best answer''), st)
                         else (case markAsBestAnswer (fr_postId reply) replyId st of
                                 (Inl e, st') \<Rightarrow>
                                   ((500, Message ''Failed to mark as best answer''), st')
                               | (Inr updatedReply, st') \<Rightarrow>
                                   ((200, ReplyJson updatedReply), st'))))))"

text \<open>Every (event, user) pair is registered at most once.\<close>

definition registeredOnce :: "MemStorage \<Rightarrow> bool" where
  "registeredOnce st =
     distinct (map (\<lambda>reg. (er_eventId reg, er_userId reg)) (map snd (eventRegistrations st)))"

subsection \<open>Sample requests\<close>

definition sampleEvent :: "int \<Rightarrow> Event" where
  "sampleEvent i =
     \<lparr> ev_id = i, ev_title = ''Contest'', ev_description = ''Weekly contest'',
       ev_eventType = ''contest'', ev_date = 100, ev_duration = 90, ev_location = ''Lab'',
       ev_createdBy = 1, ev_createdAt = 0 \<rparr>"

text \<open>
  The store right after construction-time setup plus one member (user 2), one event and
  the member's registration for it.
\<close>

definition sampleClub :: MemStorage where
  "sampleClub =
     \<lparr> users = [(1, sampleUser 1 ''admin'' ''admin''), (2, sampleUser 2 ''ann'' ''member'')],
       events = [(1, sampleEvent 1)],
       eventRegistrations =
         [(1, \<lparr> er_id = 1, er_eventId = 1, er_userId = 2, er_registeredAt = 5 \<rparr>)],
       contestResults = [], forumPosts = [], forumReplies = [], resources = [],
       userId = 3, eventId = 2, eventRegistrationId = 2, contestResultId = 1,
       forumPostId = 1, forumReplyId = 1, resourceId = 1 \<rparr>"

definition memberRegisters :: "unit Request" where
  "memberRegisters =
     \<lparr> req_user = Some (sampleUser 2 ''ann'' ''member''), req_id = Some 1, req_body = None \<rparr>"

definition memberPostsEvent :: "InsertEvent Request" where
  "memberPostsEvent =
     \<lparr> req_user = Some (sampleUser 2 ''ann'' ''member''), req_id = None,
       req_body = Some \<lparr> ie_title = ''Party'', ie_description = ''Not a club event'',
                         ie_eventType = ''meetup'', ie_date = 200, ie_duration = 60,
                         ie_location = ''Somewhere'', ie_createdBy = 2 \<rparr> \<rparr>"

definition memberPostsResource :: "InsertResource Request" where
  "memberPostsResource =
     \<lparr> req_user = Some (sampleUser 2 ''ann'' ''member''), req_id = None,
       req_body = Some \<lparr> ir_title = ''Notes'', ir_description = ''My notes'',
                         ir_content = Some ''text'', ir_resourceType = ''guide'',
                         ir_link = None, ir_userId = 2 \<rparr> \<rparr>"

definition authorMarks :: "int \<Rightarrow> unit Request" where
  "authorMarks replyId =
     \<lparr> req_user = Some (sampleUser 2 ''ann'' ''member''), req_id = Some replyId,
       req_body = None \<rparr>"

section \<open>The PostgreSQL store (class PostgreSQLStorage)\<close>

text \<open>
  The table \<^verbatim>\<open>forum_replies\<close> that \<^verbatim>\<open>initTables\<close> creates, as the list of its rows. A row
  is the record that \<^verbatim>\<open>mapForumReplyFromDB\<close> makes of it. The columns \<^verbatim>\<open>id\<close>,
  \<^verbatim>\<open>post_id\<close>, \<^verbatim>\<open>user_id\<close> and \<^verbatim>\<open>upvotes\<close> are declared \<^verbatim>\<open>SERIAL\<close> or \<^verbatim>\<open>INTEGER\<close>: they
  hold 32-bit signed integers, and \<^verbatim>\<open>id\<close> is the primary key.
\<close>

record Database =
  tbl_forum_replies :: "ForumReply list"

definition int32 :: "int \<Rightarrow> bool" where
  "int32 i = (- 2147483648 \<le> i \<and> i \<le> 2147483647)"

definition wellTyped :: "Database \<Rightarrow> bool" where
  "wellTyped db =
     (distinct (map fr_id (tbl_forum_replies db)) \<and>
      list_all (\<lambda>row. int32 (fr_id row) \<and> int32 (fr_postId row) \<and> int32 (fr_userId row) \<and>
                      int32 (fr_upvotes row)) (tbl_forum_replies db))"

text \<open>
  The statements used: \<^verbatim>\<open>SELECT * FROM t WHERE c\<close> and
  \<^verbatim>\<open>UPDATE t SET ... WHERE c RETURNING *\<close> (the new table and the updated rows).
\<close>

definition sql_select :: "('r \<Rightarrow> bool) \<Rightarrow> 'r list \<Rightarrow> 'r list" where
  "sql_select c t = filter c t"

definition sql_update :: "('r \<Rightarrow> bool) \<Rightarrow> ('r \<Rightarrow> 'r) \<Rightarrow> 'r list \<Rightarrow> 'r list \<times> 'r list" where
  "sql_update c f t = (map (\<lambda>row. if c row then f row else row) t, map f (filter c t))"

text \<open>
  \<^verbatim>\<open>getForumReply\<close>: \<^verbatim>\<open>SELECT * FROM forum_replies WHERE id = $1\<close>, then \<^verbatim>\<open>undefined\<close> when
  \<^verbatim>\<open>result.rows.length === 0\<close> and the first row otherwise. The database rejects the
  statement when the parameter is not a 32-bit integer, and the promise is rejected.
\<close>

definition pg_getForumReply :: "int \<Rightarrow> Database \<Rightarrow> error + ForumReply option" where
  "pg_getForumReply rid db =
     (if \<not> int32 rid then Inl IntegerOutOfRange
      else case sql_select (\<lambda>row. fr_id row = rid) (tbl_forum_replies db) of
             [] \<Rightarrow> Inr None
           | row # _ \<Rightarrow> Inr (Some row))"

text \<open>
  \<^verbatim>\<open>markAsBestAnswer\<close> runs two updates between \<^verbatim>\<open>BEGIN\<close> and \<^verbatim>\<open>COMMIT\<close>: clear the flag of
  the best answers of the post, then set it on the row with this id and this post. When
  the database rejects a statement, or the second update returns no row and the function
  throws, the \<^verbatim>\<open>catch\<close> block sends \<^verbatim>\<open>ROLLBACK\<close> and throws the error again: the table is
  as before the call.
\<close>

definition pg_markAsBestAnswer ::
  "int \<Rightarrow> int \<Rightarrow> Database \<Rightarrow> (error + ForumReply) \<times> Database" where
  "pg_markAsBestAnswer postId replyId db =
     (if \<not> int32 postId then (Inl IntegerOutOfRange, db)
      else
        let (t1, cleared) =
              sql_update (\<lambda>row. fr_postId row = postId \<and> fr_isBestAnswer row = True)
                (\<lambda>row. row\<lparr> fr_isBestAnswer := False \<rparr>) (tbl_forum_replies db)
        in if \<not> int32 replyId then (Inl IntegerOutOfRange, db)
           else
             let (t2, rows) =
                   sql_update (\<lambda>row. fr_id row = replyId \<and> fr_postId row = postId)
                     (\<lambda>row. row\<lparr> fr_isBestAnswer := True \<rparr>) t1
             in case rows of
                  [] \<Rightarrow> (Inl ReplyNotFoundOrWrongPost, db)
                | row # _ \<Rightarrow> (Inr row, db\<lparr> tbl_forum_replies := t2 \<rparr>))"

section \<open>The two backends side by side\<close>

text \<open>
  Two calls of the storage interface, and what a call gives back: the value that the
  promise resolves with (\<^const>\<open>None\<close> for \<^verbatim>\<open>undefined\<close>), or the error it is rejected with.
\<close>

datatype StorageCall =
  CallGetForumReply int
  | CallMarkAsBestAnswer int int

datatype StorageResult =
  Returned "ForumReply option"
  | Threw error

fun memCall :: "StorageCall \<Rightarrow> MemStorage \<Rightarrow> StorageResult \<times> MemStorage" where
  "memCall (CallGetForumReply rid) st = (Returned (getForumReply rid st), st)"
| "memCall (CallMarkAsBestAnswer postId replyId) st =
     (case markAsBestAnswer postId replyId st of
        (Inl e, st') \<Rightarrow> (Threw e, st')
      | (Inr reply, st') \<Rightarrow> (Returned (Some reply), st'))"

fun pgCall :: "StorageCall \<Rightarrow> Database \<Rightarrow> StorageResult \<times> Database" where
  "pgCall (CallGetForumReply rid) db =
     (case pg_getForumReply rid db of
        Inl e \<Rightarrow> (Threw e, db)
      | Inr reply \<Rightarrow> (Returned reply, db))"
| "pgCall (CallMarkAsBestAnswer postId replyId) db =
     (case pg_markAsBestAnswer postId replyId db of
        (Inl e, db') \<Rightarrow> (Threw e, db')
      | (Inr reply, db') \<Rightarrow> (Returned (Some reply), db'))"

text \<open>The results of a sequence of calls, in order.\<close>

fun memRun :: "StorageCall list \<Rightarrow> MemStorage \<Rightarrow> StorageResult list" where
  "memRun [] st = []"
| "memRun (c # cs) st = (let (r, st') = memCall c st in r # memRun cs st')"

fun pgRun :: "StorageCall list \<Rightarrow> Database \<Rightarrow> StorageResult list" where
  "pgRun [] db = []"
| "pgRun (c # cs) db = (let (r, db') = pgCall c db in r # pgRun cs db')"

text \<open>
  The same replies in both backends: the map of the in-memory store holds the rows of
  the table, each under its id and in the same order. The other maps and tables play no
  part in the two calls.
\<close>

definition keyed :: "('r \<Rightarrow> int) \<Rightarrow> 'r list \<Rightarrow> 'r jsmap" where
  "keyed k rows = map (\<lambda>row. (k row, row)) rows"

definition sameState :: "MemStorage \<Rightarrow> Database \<Rightarrow> bool" where
  "sameState st db = (wellTyped db \<and> forumReplies st = keyed fr_id (tbl_forum_replies db))"

subsection \<open>The replies of the sample forum as a table\<close>

definition sampleForumDb :: Database where
  "sampleForumDb =
     \<lparr> tbl_forum_replies =
         [sampleReply 1 1 True, sampleReply 2 1 False, sampleReply 3 2 False] \<rparr>"

definition failedMark :: "StorageCall list" where
  "failedMark = [CallMarkAsBestAnswer 1 99, CallGetForumReply 1]"

section \<open>Properties of the forum-reply operations\<close>

subsection \<open>Counting best answers\<close>

lemma bestCount_Nil [simp]: "bestCount P [] = 0"
  by (simp add: bestCount_def)

lemma bestCount_Cons [simp]:
  "bestCount P ((i, r) # rs) =
     (if fr_postId r = P \<and> fr_isBestAnswer r then Suc (bestCount P rs) else bestCount P rs)"
  by (simp add: bestCount_def)

lemma bestAnswersOf_bestCount: "length (bestAnswersOf P st) = bestCount P (forumReplies st)"
  by (simp add: bestAnswersOf_def bestCount_def filter_map o_def case_prod_unfold)

lemma bestCount_delete: "bestCount P (AList.delete k rs) \<le> bestCount P rs"
  by (induction rs) auto

lemma bestCount_update_notbest:
  "\<not> (fr_postId v = P \<and> fr_isBestAnswer v) \<Longrightarrow>
     bestCount P (AList.update k v rs) \<le> bestCount P rs"
  by (induction rs) auto

lemma bestCount_update_le: "bestCount P (AList.update k v rs) \<le> Suc (bestCount P rs)"
  by (induction rs) auto

lemma bestCount_update_same:
  "map_of rs k = Some old \<Longrightarrow>
   (fr_postId v = P \<and> fr_isBestAnswer v) = (fr_postId old = P \<and> fr_isBestAnswer old) \<Longrightarrow>
     bestCount P (AList.update k v rs) = bestCount P rs"
  by (induction rs) (auto split: if_splits)

lemma bestCount_reset:
  "bestCount P (resetBestAnswers Q rs) = (if P = Q then 0 else bestCount P rs)"
  by (induction rs) auto

lemma map_of_reset:
  "map_of (resetBestAnswers Q rs) k =
     map_option (\<lambda>reply. if fr_postId reply = Q \<and> fr_isBestAnswer reply
                          then reply\<lparr> fr_isBestAnswer := False \<rparr> else reply) (map_of rs k)"
  by (induction rs) auto

lemma bestCount_loop: "bestCount P (deleteRepliesLoop pid es m) \<le> bestCount P m"
proof (induction es arbitrary: m)
  case Nil
  then show ?case by simp
next
  case (Cons e es)
  obtain i r where e: "e = (i, r)" by (cases e)
  show ?case
    using Cons.IH[of m] Cons.IH[of "AList.delete i m"] bestCount_delete[of P i m]
    by (auto simp: e intro: order_trans)
qed

subsection \<open>The delete loop is a filter\<close>

lemma loop_filter:
  "deleteRepliesLoop pid es m =
     filter (\<lambda>(i, r). i \<notin> fst ` {e \<in> set es. fr_postId (snd e) = pid}) m"
proof (induction es arbitrary: m)
  case Nil
  then show ?case by simp
next
  case (Cons e es)
  obtain i r where e: "e = (i, r)" by (cases e)
  show ?case
    by (auto simp: e Cons.IH AList.delete_eq image_iff intro!: filter_cong)
qed

lemma loop_self:
  assumes "distinct (map fst m)"
  shows "deleteRepliesLoop pid m m = filter (\<lambda>(i, r). fr_postId r \<noteq> pid) m"
  unfolding loop_filter
proof (rule filter_cong)
  fix x assume x: "x \<in> set m"
  obtain i r where xr: "x = (i, r)" by (cases x)
  have "(i \<in> fst ` {e \<in> set m. fr_postId (snd e) = pid}) = (fr_postId r = pid)"
  proof
    assume "i \<in> fst ` {e \<in> set m. fr_postId (snd e) = pid}"
    then obtain r' where "(i, r') \<in> set m" "fr_postId r' = pid" by auto
    with assms x xr show "fr_postId r = pid" by (metis eq_key_imp_eq_value)
  next
    assume "fr_postId r = pid"
    with x xr show "i \<in> fst ` {e \<in> set m. fr_postId (snd e) = pid}" by force
  qed
  then show "(case x of (i, r) \<Rightarrow> i \<notin> fst ` {e \<in> set m. fr_postId (snd e) = pid}) =
             (case x of (i, r) \<Rightarrow> fr_postId r \<noteq> pid)"
    by (simp add: xr)
qed simp

subsection \<open>One step keeps the invariant\<close>

lemma step_keeps:
  assumes "bestCount P (forumReplies st) \<le> 1" and "opKeepsFlags st op"
  shows "bestCount P (forumReplies (applyOp op st)) \<le> 1"
proof (cases op)
  case (CreateForumReply ins now)
  define r where "r = fst (createForumReply ins now st)"
  have "\<not> fr_isBestAnswer r" by (simp add: r_def createForumReply_def Let_def)
  then have "bestCount P (AList.update (forumReplyId st) r (forumReplies st))
               \<le> bestCount P (forumReplies st)"
    by (intro bestCount_update_notbest) simp
  moreover have "forumReplies (applyOp op st) = AList.update (forumReplyId st) r (forumReplies st)"
    using CreateForumReply by (simp add: r_def createForumReply_def Let_def)
  ultimately show ?thesis using assms(1) by simp
next
  case (UpdateForumReply rid d now)
  show ?thesis
  proof (cases "map_of (forumReplies st) rid")
    case None
    then show ?thesis using assms UpdateForumReply by (simp add: updateForumReply_def)
  next
    case (Some old)
    let ?v = "spreadReply old d now"
    from assms(2) UpdateForumReply
    have g: "pfr_isBestAnswer d \<noteq> Some True" "pfr_postId d = None" by auto
    have "bestCount P (AList.update rid ?v (forumReplies st)) \<le> bestCount P (forumReplies st)"
    proof (cases "fr_postId ?v = P \<and> fr_isBestAnswer ?v")
      case True
      then have "(fr_postId ?v = P \<and> fr_isBestAnswer ?v)
                   = (fr_postId old = P \<and> fr_isBestAnswer old)"
        using g by (auto simp: spreadReply_def split: option.splits)
      from bestCount_update_same[OF Some this] show ?thesis by simp
    next
      case False
      then show ?thesis by (rule bestCount_update_notbest)
    qed
    then show ?thesis using assms(1) Some UpdateForumReply
      by (simp add: updateForumReply_def Let_def)
  qed
next
  case (UpvoteForumReply rid)
  show ?thesis
  proof (cases "map_of (forumReplies st) rid")
    case None
    then show ?thesis using assms UpvoteForumReply by (simp add: upvoteForumReply_def)
  next
    case (Some old)
    have "bestCount P (AList.update rid (old\<lparr> fr_upvotes := fr_upvotes old + 1 \<rparr>) (forumReplies st))
            = bestCount P (forumReplies st)"
      by (rule bestCount_update_same[OF Some]) simp
    then show ?thesis using assms(1) Some UpvoteForumReply
      by (simp add: upvoteForumReply_def Let_def)
  qed
next
  case (MarkAsBestAnswer Q R)
  let ?c = "resetBestAnswers Q (forumReplies st)"
  show ?thesis
  proof (cases "map_of ?c R")
    case None
    then show ?thesis using assms(1) MarkAsBestAnswer
      by (simp add: markAsBestAnswer_def bestCount_reset)
  next
    case (Some reply)
    then obtain old where old: "map_of (forumReplies st) R = Some old"
      and reply: "fr_postId reply = fr_postId old"
      by (auto simp: map_of_reset split: if_splits)
    with assms(2) MarkAsBestAnswer have Q: "fr_postId reply = Q"
      by (simp add: getForumReply_def)
    let ?v = "reply\<lparr> fr_isBestAnswer := True \<rparr>"
    have "bestCount P (AList.update R ?v ?c) \<le> 1"
    proof (cases "P = Q")
      case True
      then show ?thesis using bestCount_update_le[of P R ?v ?c] by (simp add: bestCount_reset)
    next
      case False
      then have "bestCount P (AList.update R ?v ?c) \<le> bestCount P ?c"
        using Q by (intro bestCount_update_notbest) simp
      then show ?thesis using False assms(1) by (simp add: bestCount_reset)
    qed
    then show ?thesis using Some MarkAsBestAnswer by (simp add: markAsBestAnswer_def Let_def)
  qed
next
  case (DeleteForumReply rid)
  then show ?thesis using assms(1) bestCount_delete[of P rid "forumReplies st"]
    by (simp add: deleteForumReply_def)
next
  case (DeleteForumPost pid)
  then show ?thesis
    using assms(1) bestCount_loop[of P pid "forumReplies st" "forumReplies st"]
    by (simp add: deleteForumPost_def)
qed

lemma applyOp_keeps:
  "atMostOneBest st \<Longrightarrow> opKeepsFlags st op \<Longrightarrow> atMostOneBest (applyOp op st)"
  unfolding atMostOneBest_def bestAnswersOf_bestCount using step_keeps by blast

lemma sampleForum_atMostOneBest: "atMostOneBest sampleForum"
  by (simp add: atMostOneBest_def bestAnswersOf_def sampleForum_def sampleReply_def)

text \<open>
  C1 (as amended). From a store in which no post has two best answers, every sequence of
  createForumReply, upvoteForumReply, deleteForumReply, deleteForumPost, updateForumReply
  calls whose data neither sets isBestAnswer to true nor changes postId, and
  markAsBestAnswer(Q, R) calls whose reply R is absent or belongs to Q, leads to a store
  in which every post P has at most one reply with isBestAnswer = true.
\<close>

theorem best_answer_unique_preserved:
  "atMostOneBest st \<Longrightarrow> opsKeepFlags st ops \<Longrightarrow>
     length (bestAnswersOf P (applyOps ops st)) \<le> 1"
proof (induction ops arbitrary: st)
  case Nil
  then show ?case by (simp add: atMostOneBest_def)
next
  case (Cons op ops)
  from Cons.prems have "atMostOneBest (applyOp op st)" "opsKeepFlags (applyOp op st) ops"
    by (auto intro: applyOp_keeps)
  from Cons.IH[OF this] show ?case by simp
qed

theorem best_answer_unique_preserved_witness:
  "atMostOneBest sampleForum \<and> opsKeepFlags sampleForum sampleOps \<and>
     length (bestAnswersOf 1 (applyOps sampleOps sampleForum)) \<le> 1"
proof -
  have ops: "opsKeepFlags sampleForum sampleOps"
    by (simp add: sampleOps_def sampleForum_def sampleReply_def getForumReply_def
        markAsBestAnswer_def upvoteForumReply_def createForumReply_def updateForumReply_def
        deleteForumReply_def deleteForumPost_def spreadReply_def Let_def)
  from best_answer_unique_preserved[OF sampleForum_atMostOneBest ops, of 1]
    sampleForum_atMostOneBest ops
  show ?thesis by simp
qed

text \<open>
  C1 as stated fails: updateForumReply accepts any partial reply. In the sample forum
  reply 1 is the best answer of post 1; updateForumReply(2, {isBestAnswer: true}) makes
  reply 2 a second one.
\<close>

theorem best_answer_unique_counterexample:
  "atMostOneBest sampleForum \<and>
   \<not> atMostOneBest (applyOps [UpdateForumReply 2 flagOnly 5] sampleForum)"
proof -
  have "length (bestAnswersOf 1 (applyOps [UpdateForumReply 2 flagOnly 5] sampleForum)) = 2"
    by (simp add: bestAnswersOf_def updateForumReply_def spreadReply_def flagOnly_def
        sampleForum_def sampleReply_def Let_def)
  then have "\<not> atMostOneBest (applyOps [UpdateForumReply 2 flagOnly 5] sampleForum)"
    unfolding atMostOneBest_def by (metis Suc_1 not_less_eq_eq order_refl)
  with sampleForum_atMostOneBest show ?thesis by simp
qed

subsection \<open>markAsBestAnswer\<close>

lemma clearFlag_props [simp]:
  "fr_postId (clearFlag P reply) = fr_postId reply"
  "fr_isBestAnswer (clearFlag P reply) = (fr_isBestAnswer reply \<and> fr_postId reply \<noteq> P)"
  "(clearFlag P reply)\<lparr> fr_isBestAnswer := True \<rparr> = reply\<lparr> fr_isBestAnswer := True \<rparr>"
  by (auto simp: clearFlag_def)

lemma reset_map: "resetBestAnswers P rs = map (\<lambda>(i, reply). (i, clearFlag P reply)) rs"
  by (induction rs) (simp_all add: clearFlag_def split: prod.splits)

lemma reset_entries:
  assumes "(k, reply) \<in> set (resetBestAnswers P rs)" and "fr_postId reply = P"
  shows "\<not> fr_isBestAnswer reply"
proof -
  from assms(1) obtain r where "reply = clearFlag P r" by (auto simp: reset_map)
  with assms(2) show ?thesis by simp
qed

lemma map_of_reset': "map_of (resetBestAnswers Q rs) k = map_option (clearFlag Q) (map_of rs k)"
  by (simp add: reset_map map_of_map)

lemma set_update_subset: "set (AList.update k v xs) \<subseteq> insert (k, v) (set xs)"
  by (induction xs) auto

lemma update_other_entries:
  "(k, x) \<in> set (AList.update R v xs) \<Longrightarrow> k \<noteq> R \<Longrightarrow> (k, x) \<in> set xs"
  using set_update_subset[of R v xs] by auto

lemma mark_found:
  assumes "getForumReply R st = Some r" and "fr_postId r = P"
  shows "markAsBestAnswer P R st =
          (Inr (r\<lparr> fr_isBestAnswer := True \<rparr>),
           st\<lparr> forumReplies := AList.update R (r\<lparr> fr_isBestAnswer := True \<rparr>)
                                  (resetBestAnswers P (forumReplies st)) \<rparr>)"
proof -
  have "map_of (resetBestAnswers P (forumReplies st)) R = Some (clearFlag P r)"
    using assms(1) by (simp add: getForumReply_def map_of_reset')
  then show ?thesis by (simp add: markAsBestAnswer_def Let_def)
qed

lemma mark_lookup_other:
  assumes "getForumReply R st = Some r" and "fr_postId r = P" and "k \<noteq> R"
  shows "getForumReply k (snd (markAsBestAnswer P R st))
           = map_option (clearFlag P) (getForumReply k st)"
  using assms(3)
  by (simp add: mark_found[OF assms(1,2)] getForumReply_def update_conv' map_of_reset')

lemma mark_lookup_self:
  assumes "getForumReply R st = Some r" and "fr_postId r = P"
  shows "getForumReply R (snd (markAsBestAnswer P R st))
           = Some (r\<lparr> fr_isBestAnswer := True \<rparr>)"
  by (simp add: mark_found[OF assms] getForumReply_def update_conv')

lemma mark_then_mark:
  assumes A: "getForumReply A st = Some a" "fr_postId a = P"
    and B: "getForumReply B st = Some b" "fr_postId b = P" and "B \<noteq> A"
  shows "map_option fr_isBestAnswer
           (getForumReply A (snd (markAsBestAnswer P B (snd (markAsBestAnswer P A st)))))
           = Some False
       \<and> map_option fr_isBestAnswer
           (getForumReply B (snd (markAsBestAnswer P B (snd (markAsBestAnswer P A st)))))
           = Some True"
proof -
  let ?st1 = "snd (markAsBestAnswer P A st)"
  have a1: "getForumReply A ?st1 = Some (a\<lparr> fr_isBestAnswer := True \<rparr>)"
    by (rule mark_lookup_self[OF A])
  have b1: "getForumReply B ?st1 = Some (clearFlag P b)" "fr_postId (clearFlag P b) = P"
    using mark_lookup_other[OF A \<open>B \<noteq> A\<close>] B by simp_all
  have "A \<noteq> B" using \<open>B \<noteq> A\<close> by simp
  have "getForumReply A (snd (markAsBestAnswer P B ?st1))
          = Some (clearFlag P (a\<lparr> fr_isBestAnswer := True \<rparr>))"
    using mark_lookup_other[OF b1 \<open>A \<noteq> B\<close>] a1 by simp
  moreover have "getForumReply B (snd (markAsBestAnswer P B ?st1))
          = Some ((clearFlag P b)\<lparr> fr_isBestAnswer := True \<rparr>)"
    by (rule mark_lookup_self[OF b1])
  ultimately show ?thesis using A(2) by simp
qed

text \<open>
  C5. When reply R belongs to post P, markAsBestAnswer(P, R) returns R with isBestAnswer
  = true, stores it so, and leaves isBestAnswer = false on every other reply of P.
  Marking R and then another reply B of P leaves R with false and B with true. The
  best-answer route, called for R by the author of P or by an admin, answers 200 with the
  updated reply and performs exactly this storage call.
\<close>

theorem markAsBestAnswer_single_best:
  assumes "getForumReply R st = Some r" and "fr_postId r = P"
  shows "fst (markAsBestAnswer P R st) = Inr (r\<lparr> fr_isBestAnswer := True \<rparr>) \<and>
         getForumReply R (snd (markAsBestAnswer P R st))
           = Some (r\<lparr> fr_isBestAnswer := True \<rparr>) \<and>
         (\<forall>k reply. (k, reply) \<in> set (forumReplies (snd (markAsBestAnswer P R st))) \<and>
              k \<noteq> R \<and> fr_postId reply = P \<longrightarrow> \<not> fr_isBestAnswer reply) \<and>
         (\<forall>B b. B \<noteq> R \<and> getForumReply B st = Some b \<and> fr_postId b = P \<longrightarrow>
            map_option fr_isBestAnswer
              (getForumReply R (snd (markAsBestAnswer P B (snd (markAsBestAnswer P R st)))))
              = Some False \<and>
            map_option fr_isBestAnswer
              (getForumReply B (snd (markAsBestAnswer P B (snd (markAsBestAnswer P R st)))))
              = Some True) \<and>
         (\<forall>req caller post. req_user req = Some caller \<and> req_id req = Some R \<and>
              getForumPost P st = Some post \<and>
              (fp_userId post = u_id caller \<or> u_role caller = ''admin'') \<longrightarrow>
            post_api_forum_reply_best_answer req st =
              ((200, ReplyJson (r\<lparr> fr_isBestAnswer := True \<rparr>)),
               snd (markAsBestAnswer P R st)))"
proof (intro conjI allI impI)
  show "fst (markAsBestAnswer P R st) = Inr (r\<lparr> fr_isBestAnswer := True \<rparr>)"
    by (simp add: mark_found[OF assms])
  show "getForumReply R (snd (markAsBestAnswer P R st)) = Some (r\<lparr> fr_isBestAnswer := True \<rparr>)"
    by (rule mark_lookup_self[OF assms])
next
  fix k reply
  assume h: "(k, reply) \<in> set (forumReplies (snd (markAsBestAnswer P R st))) \<and> k \<noteq> R \<and>
             fr_postId reply = P"
  then have "(k, reply) \<in> set (AList.update R (r\<lparr> fr_isBestAnswer := True \<rparr>)
                                  (resetBestAnswers P (forumReplies st)))"
    by (simp add: mark_found[OF assms])
  with h have "(k, reply) \<in> set (resetBestAnswers P (forumReplies st))"
    by (blast dest: update_other_entries)
  with h show "\<not> fr_isBestAnswer reply" by (blast dest: reset_entries)
next
  fix B b assume "B \<noteq> R \<and> getForumReply B st = Some b \<and> fr_postId b = P"
  then have *: "getForumReply B st = Some b" "fr_postId b = P" "B \<noteq> R" by blast+
  from mark_then_mark[OF assms *]
  show "map_option fr_isBestAnswer
          (getForumReply R (snd (markAsBestAnswer P B (snd (markAsBestAnswer P R st)))))
          = Some False"
    "map_option fr_isBestAnswer
          (getForumReply B (snd (markAsBestAnswer P B (snd (markAsBestAnswer P R st)))))
          = Some True"
    by blast+
next
  fix req :: "unit Request" and caller post
  assume h: "req_user req = Some caller \<and> req_id req = Some R \<and>
             getForumPost P st = Some post \<and>
             (fp_userId post = u_id caller \<or> u_role caller = ''admin'')"
  then have "\<not> (fp_userId post \<noteq> u_id caller \<and> u_role caller \<noteq> ''admin'')" by blast
  with h assms show "post_api_forum_reply_best_answer req st =
      ((200, ReplyJson (r\<lparr> fr_isBestAnswer := True \<rparr>)), snd (markAsBestAnswer P R st))"
    by (simp add: post_api_forum_reply_best_answer_def mark_found[OF assms])
qed

theorem markAsBestAnswer_single_best_witness:
  "getForumReply 2 sampleForum = Some (sampleReply 2 1 False) \<and>
   fr_postId (sampleReply 2 1 False) = 1 \<and>
   fst (markAsBestAnswer 1 2 sampleForum) = Inr (sampleReply 2 1 True) \<and>
   getForumReply 2 (snd (markAsBestAnswer 1 2 sampleForum)) = Some (sampleReply 2 1 True) \<and>
   map_option fr_isBestAnswer
     (getForumReply 2 (snd (markAsBestAnswer 1 1 (snd (markAsBestAnswer 1 2 sampleForum)))))
     = Some False \<and>
   map_option fr_isBestAnswer
     (getForumReply 1 (snd (markAsBestAnswer 1 1 (snd (markAsBestAnswer 1 2 sampleForum)))))
     = Some True \<and>
   post_api_forum_reply_best_answer (authorMarks 2) sampleForum =
     ((200, ReplyJson (sampleReply 2 1 True)), snd (markAsBestAnswer 1 2 sampleForum))"
proof -
  have h1: "getForumReply 2 sampleForum = Some (sampleReply 2 1 False)"
    by (simp add: getForumReply_def sampleForum_def)
  have h2: "fr_postId (sampleReply 2 1 False) = 1" by (simp add: sampleReply_def)
  have up: "(sampleReply 2 1 False)\<lparr> fr_isBestAnswer := True \<rparr> = sampleReply 2 1 True"
    by (simp add: sampleReply_def)
  have h3: "(1::int) \<noteq> 2 \<and> getForumReply 1 sampleForum = Some (sampleReply 1 1 True) \<and>
            fr_postId (sampleReply 1 1 True) = 1"
    by (simp add: getForumReply_def sampleForum_def sampleReply_def)
  have h4: "req_user (authorMarks 2) = Some (sampleUser 2 ''ann'' ''member'') \<and>
            req_id (authorMarks 2) = Some 2 \<and>
            getForumPost 1 sampleForum = Some (samplePost 1 2) \<and>
            (fp_userId (samplePost 1 2) = u_id (sampleUser 2 ''ann'' ''member'') \<or>
             u_role (sampleUser 2 ''ann'' ''member'') = ''admin'')"
    by (simp add: authorMarks_def getForumPost_def sampleForum_def samplePost_def sampleUser_def)
  note t = markAsBestAnswer_single_best[OF h1 h2, unfolded up]
  from t have c1: "fst (markAsBestAnswer 1 2 sampleForum) = Inr (sampleReply 2 1 True)"
    and c2: "getForumReply 2 (snd (markAsBestAnswer 1 2 sampleForum))
               = Some (sampleReply 2 1 True)"
    by blast+
  from t have "\<forall>B b. B \<noteq> 2 \<and> getForumReply B sampleForum = Some b \<and> fr_postId b = 1 \<longrightarrow>
            map_option fr_isBestAnswer
              (getForumReply 2 (snd (markAsBestAnswer 1 B (snd (markAsBestAnswer 1 2 sampleForum)))))
              = Some False \<and>
            map_option fr_isBestAnswer
              (getForumReply B (snd (markAsBestAnswer 1 B (snd (markAsBestAnswer 1 2 sampleForum)))))
              = Some True"
    by blast
  from this[rule_format, OF h3] have c3:
    "map_option fr_isBestAnswer
       (getForumReply 2 (snd (markAsBestAnswer 1 1 (snd (markAsBestAnswer 1 2 sampleForum)))))
       = Some False \<and>
     map_option fr_isBestAnswer
       (getForumReply 1 (snd (markAsBestAnswer 1 1 (snd (markAsBestAnswer 1 2 sampleForum)))))
       = Some True" .
  from t have "\<forall>req caller post. req_user req = Some caller \<and> req_id req = Some 2 \<and>
              getForumPost 1 sampleForum = Some post \<and>
              (fp_userId post = u_id caller \<or> u_role caller = ''admin'') \<longrightarrow>
            post_api_forum_reply_best_answer req sampleForum =
              ((200, ReplyJson (sampleReply 2 1 True)), snd (markAsBestAnswer 1 2 sampleForum))"
    by blast
  from this[rule_format, OF h4] have c4:
    "post_api_forum_reply_best_answer (authorMarks 2) sampleForum =
       ((200, ReplyJson (sampleReply 2 1 True)), snd (markAsBestAnswer 1 2 sampleForum))" .
  from h1 h2 c1 c2 c3 c4 show ?thesis by blast
qed

text \<open>
  C6. The claim asks that a failing markAsBestAnswer leave the store unchanged.
  MemStorage resets the flags before it looks the reply up: in the sample forum, where
  reply 1 is the best answer of post 1 and no reply 99 exists, markAsBestAnswer(1, 99)
  throws "Reply not found" and post 1 is left without a best answer.
\<close>

theorem markAsBestAnswer_failure_not_atomic:
  "fst (markAsBestAnswer 1 99 sampleForum) = Inl ReplyNotFound \<and>
   map_option fr_isBestAnswer (getForumReply 1 sampleForum) = Some True \<and>
   map_option fr_isBestAnswer (getForumReply 1 (snd (markAsBestAnswer 1 99 sampleForum)))
     = Some False \<and>
   bestAnswersOf 1 (snd (markAsBestAnswer 1 99 sampleForum)) = []"
  by (simp add: markAsBestAnswer_def sampleForum_def sampleReply_def getForumReply_def
      bestAnswersOf_def)

subsection \<open>deleteForumPost\<close>

lemma map_of_filter_vals:
  "distinct (map fst m) \<Longrightarrow>
     map_of (filter (\<lambda>(i, r). Q r) m) k =
       (case map_of m k of None \<Rightarrow> None | Some r \<Rightarrow> if Q r then Some r else None)"
proof (induction m)
  case Nil
  then show ?case by simp
next
  case (Cons x m)
  obtain i r where x: "x = (i, r)" by (cases x)
  from Cons.prems have d: "distinct (map fst m)" and n: "i \<notin> fst ` set m"
    by (simp_all add: x)
  from n have none: "map_of m i = None" by (simp add: map_of_eq_None_iff)
  have none': "map_of (filter (\<lambda>(i, r). Q r) m) i = None"
    using n by (force simp: map_of_eq_None_iff)
  show ?case
  proof (cases "k = i")
    case True
    then show ?thesis using none none' by (simp add: x)
  next
    case False
    then show ?thesis using Cons.IH[OF d] by (simp add: x)
  qed
qed

text \<open>
  C9. deleteForumPost(P) leaves no reply with postId = P in the store, keeps every
  reply of another post as it was, adds none, and removes the post. (The keys of the
  reply map are unique, as in every Map.)
\<close>

theorem deleteForumPost_cascades:
  assumes "distinct (map fst (forumReplies st))"
  shows "(\<forall>i reply. getForumReply i (snd (deleteForumPost P st)) = Some reply \<longrightarrow>
             fr_postId reply \<noteq> P) \<and>
         (\<forall>i reply. getForumReply i st = Some reply \<and> fr_postId reply \<noteq> P \<longrightarrow>
             getForumReply i (snd (deleteForumPost P st)) = Some reply) \<and>
         (\<forall>i. getForumReply i st = None \<longrightarrow>
             getForumReply i (snd (deleteForumPost P st)) = None) \<and>
         getForumPost P (snd (deleteForumPost P st)) = None"
proof -
  have l: "getForumReply i (snd (deleteForumPost P st)) =
        (case getForumReply i st of None \<Rightarrow> None
         | Some r \<Rightarrow> if fr_postId r \<noteq> P then Some r else None)" for i
    by (simp add: deleteForumPost_def getForumReply_def loop_self[OF assms]
        map_of_filter_vals[OF assms])
  have p: "getForumPost P (snd (deleteForumPost P st)) = None"
    by (simp add: deleteForumPost_def getForumPost_def delete_conv')
  show ?thesis unfolding l using p by (auto split: option.splits if_splits)
qed

theorem deleteForumPost_cascades_witness:
  "distinct (map fst (forumReplies sampleForum)) \<and>
   getForumReply 3 sampleForum = Some (sampleReply 3 2 False) \<and>
   fr_postId (sampleReply 3 2 False) \<noteq> 1 \<and>
   getForumReply 3 (snd (deleteForumPost 1 sampleForum)) = Some (sampleReply 3 2 False) \<and>
   getForumReply 1 (snd (deleteForumPost 1 sampleForum)) = None \<and>
   getForumReply 2 (snd (deleteForumPost 1 sampleForum)) = None \<and>
   getForumPost 1 (snd (deleteForumPost 1 sampleForum)) = None"
proof -
  have d: "distinct (map fst (forumReplies sampleForum))" by (simp add: sampleForum_def)
  have h: "getForumReply 3 sampleForum = Some (sampleReply 3 2 False) \<and>
           fr_postId (sampleReply 3 2 False) \<noteq> 1"
    by (simp add: getForumReply_def sampleForum_def sampleReply_def)
  have g: "getForumReply 1 (snd (deleteForumPost 1 sampleForum)) = None"
          "getForumReply 2 (snd (deleteForumPost 1 sampleForum)) = None"
    by (simp_all add: getForumReply_def deleteForumPost_def sampleForum_def sampleReply_def)
  note t = deleteForumPost_cascades[OF d, of 1]
  from t have "\<forall>i reply. getForumReply i sampleForum = Some reply \<and> fr_postId reply \<noteq> 1 \<longrightarrow>
             getForumReply i (snd (deleteForumPost 1 sampleForum)) = Some reply" by blast
  from this[rule_format, OF h]
  have c: "getForumReply 3 (snd (deleteForumPost 1 sampleForum)) = Some (sampleReply 3 2 False)" .
  from t have p: "getForumPost 1 (snd (deleteForumPost 1 sampleForum)) = None" by blast
  from d h g c p show ?thesis by blast
qed

section \<open>Properties of the leaderboard\<close>

subsection \<open>Rounding\<close>

lemma bitLength_le: "n < 2 ^ k \<Longrightarrow> bitLength n \<le> k"
proof (induction k arbitrary: n)
  case 0
  then show ?case by (simp add: bitLength.simps)
next
  case (Suc k)
  show ?case
  proof (cases "n = 0")
    case True
    then show ?thesis by (simp add: bitLength.simps)
  next
    case False
    from Suc.prems have "n div 2 < 2 ^ k" by simp
    from Suc.IH[OF this] False show ?thesis by (subst bitLength.simps) simp
  qed
qed

lemma bitLength_eq: "2 ^ k \<le> n \<Longrightarrow> n < 2 ^ Suc k \<Longrightarrow> bitLength n = Suc k"
proof (induction k arbitrary: n)
  case 0
  then have "n = 1" by simp
  then show ?case by (simp add: bitLength.simps)
next
  case (Suc k)
  then have "2 ^ k \<le> n div 2" "n div 2 < 2 ^ Suc k" "n \<noteq> 0" by auto
  from Suc.IH[OF this(1,2)] this(3) show ?case by (subst bitLength.simps) simp
qed

lemma roundToDouble_small:
  assumes "\<bar>x\<bar> < 2 ^ 53"
  shows "roundToDouble x = Finite x"
proof -
  from assms have "nat \<bar>x\<bar> < 2 ^ 53" by (simp add: nat_less_iff)
  from bitLength_le[OF this] have e: "bitLength (nat \<bar>x\<bar>) - 53 = 0" by simp
  have v: "int (nat \<bar>x\<bar>) < 2 ^ 1024" using assms by simp
  show ?thesis unfolding roundToDouble_def Let_def e using v by simp
qed

lemma roundToDouble_limit:
  "roundToDouble 9007199254740992 = Finite 9007199254740992"
  "roundToDouble (- 9007199254740992) = Finite (- 9007199254740992)"
proof -
  have b: "bitLength 9007199254740992 = 54"
    using bitLength_eq[of 53 9007199254740992] by simp
  show "roundToDouble 9007199254740992 = Finite 9007199254740992"
    by (simp add: roundToDouble_def Let_def b)
  show "roundToDouble (- 9007199254740992) = Finite (- 9007199254740992)"
    by (simp add: roundToDouble_def Let_def b)
qed

lemma roundToDouble_exact:
  assumes "\<bar>x\<bar> \<le> 2 ^ 53"
  shows "roundToDouble x = Finite x"
proof (cases "\<bar>x\<bar> < 2 ^ 53")
  case True
  then show ?thesis by (rule roundToDouble_small)
next
  case False
  with assms have "\<bar>x\<bar> = 9007199254740992" by simp
  then have "x = 9007199254740992 \<or> x = - 9007199254740992" by linarith
  then show ?thesis
  proof
    assume "x = 9007199254740992"
    then show ?thesis by (simp only: roundToDouble_limit)
  next
    assume "x = - 9007199254740992"
    then show ?thesis by (simp only: roundToDouble_limit)
  qed
qed

lemma roundToDouble_tie: "roundToDouble 9007199254740993 = Finite 9007199254740992"
proof -
  have b: "bitLength 9007199254740993 = 54"
    using bitLength_eq[of 53 9007199254740993] by simp
  show ?thesis unfolding roundToDouble_def by (simp add: b Let_def)
qed

lemma foldl_jsAdd_exact:
  "\<bar>a\<bar> + sum_list (map abs xs) \<le> 2 ^ 53 \<Longrightarrow>
     foldl jsAdd (Finite a) (map Finite xs) = Finite (a + sum_list xs)"
proof (induction xs arbitrary: a)
  case Nil
  then show ?case by simp
next
  case (Cons x xs)
  have nn: "0 \<le> sum_list (map abs xs)" by (rule sum_list_nonneg) auto
  from Cons.prems have p: "\<bar>a\<bar> + \<bar>x\<bar> + sum_list (map abs xs) \<le> 2 ^ 53" by simp
  have t: "\<bar>a + x\<bar> \<le> \<bar>a\<bar> + \<bar>x\<bar>" by (rule abs_triangle_ineq)
  from p t nn have s: "\<bar>a + x\<bar> \<le> 2 ^ 53" by linarith
  from p t have r: "\<bar>a + x\<bar> + sum_list (map abs xs) \<le> 2 ^ 53" by linarith
  have "jsAdd (Finite a) (Finite x) = Finite (a + x)" by (simp add: roundToDouble_exact[OF s])
  then show ?case using Cons.IH[OF r] by (simp add: add.assoc)
qed

subsection \<open>Sorting\<close>

lemma set_insertSorted: "set (insertSorted c x ys) = insert x (set ys)"
  by (induction ys) auto

lemma set_arraySort: "set (arraySort c xs) = set xs"
  by (induction xs) (simp_all add: arraySort_def set_insertSorted)

lemma count_insertSorted:
  "length (filter P (insertSorted c x ys)) = length (filter P (x # ys))"
  by (induction ys) auto

lemma count_arraySort: "length (filter P (arraySort c xs)) = length (filter P xs)"
  by (induction xs) (simp_all add: arraySort_def count_insertSorted)

lemma filter_arraySort_single:
  assumes "filter P xs = [row]"
  shows "filter P (arraySort c xs) = [row]"
proof -
  have "length (filter P (arraySort c xs)) = 1" using assms by (simp add: count_arraySort)
  then obtain y where y: "filter P (arraySort c xs) = [y]"
    by (cases "filter P (arraySort c xs)") auto
  have "set (filter P (arraySort c xs)) = set (filter P xs)" by (simp add: set_arraySort)
  with y assms have "y = row" by simp
  with y show ?thesis by simp
qed

subsection \<open>Gathering and rows\<close>

lemma gather_keys: "fst ` set (gatherScores rs us) = fst ` set us \<union> cr_userId ` set rs"
  by (induction rs arbitrary: us) (auto simp: Let_def dom_update)

lemma gather_distinct: "distinct (map fst us) \<Longrightarrow> distinct (map fst (gatherScores rs us))"
  by (induction rs arbitrary: us) (auto simp: Let_def distinct_update)

lemma gather_total:
  "totalOf (map_of (gatherScores rs us) U) =
     foldl jsAdd (totalOf (map_of us U))
       (map Finite (map cr_score (filter (\<lambda>r. cr_userId r = U) rs)))"
  by (induction rs arbitrary: us)
    (auto simp: Let_def update_conv' totalOf_def split: option.splits)

lemma rows_none:
  assumes "\<forall>k \<in> fst ` set es. \<not> carriesId us U k"
  shows "filter (\<lambda>row. lb_id row = U) (leaderboardRows us rnd es) = []"
  using assms
proof (induction es arbitrary: rnd)
  case Nil
  then show ?case by simp
next
  case (Cons e es)
  obtain k d where e: "e = (k, d)" by (cases e)
  from Cons.prems e have k: "\<not> carriesId us U k" and rest: "\<forall>k \<in> fst ` set es. \<not> carriesId us U k"
    by auto
  show ?case using Cons.IH[OF rest] k
    by (auto simp: e carriesId_def split: option.splits)
qed

lemma rows_one:
  assumes u: "carriesId us U U"
    and "distinct (map fst es)" "map_of es U = Some sd"
    and "\<forall>k \<in> fst ` set es. k = U \<or> \<not> carriesId us U k"
  shows "\<exists>row. filter (\<lambda>row. lb_id row = U) (leaderboardRows us rnd es) = [row]
     \<and> lb_score row = sd_totalScore sd \<and> lb_contestCount row = sd_contestCount sd"
  using assms(2,3,4)
proof (induction es arbitrary: rnd)
  case Nil
  then show ?case by simp
next
  case (Cons e es)
  obtain k d where e: "e = (k, d)" by (cases e)
  show ?case
  proof (cases "k = U")
    case True
    with Cons.prems e have fresh: "U \<notin> fst ` set es" and d: "d = sd" by auto
    have "\<not> carriesId us U j" if "j \<in> fst ` set es" for j
    proof -
      from that fresh have "j \<noteq> U" by blast
      moreover from that Cons.prems(3) have "j = U \<or> \<not> carriesId us U j" by auto
      ultimately show ?thesis by blast
    qed
    then have "\<forall>k \<in> fst ` set es. \<not> carriesId us U k" by blast
    from rows_none[OF this] u True d show ?thesis
      by (auto simp: e carriesId_def split: option.splits)
  next
    case False
    with Cons.prems e have "distinct (map fst es)" "map_of es U = Some sd"
      "\<forall>k \<in> fst ` set es. k = U \<or> \<not> carriesId us U k" "\<not> carriesId us U k" by auto
    from Cons.IH[OF this(1,2,3)] this(4) show ?thesis
      by (auto simp: e carriesId_def split: option.splits)
  qed
qed

text \<open>Where every user is stored under its own id, each user of the store owns its id.\<close>

lemma keyed_lookup:
  "list_all (\<lambda>(k, user). u_id user = k) us \<Longrightarrow> map_of us k = Some u \<Longrightarrow> u_id u = k"
  by (auto simp: list_all_iff dest!: map_of_SomeD)

lemma keyed_ownsId:
  assumes "usersKeyedById st" and "getUser U st = Some user"
  shows "ownsId U st"
proof -
  have k: "list_all (\<lambda>(k, user). u_id user = k) (users st)"
    using assms(1) by (simp add: usersKeyedById_def)
  have "carriesId (users st) U U"
    using assms(2) keyed_lookup[OF k, of U user] by (simp add: carriesId_def getUser_def)
  moreover have "k = U \<or> \<not> carriesId (users st) U k" for k
    using keyed_lookup[OF k, of k] by (auto simp: carriesId_def split: option.splits)
  ultimately show ?thesis by (simp add: ownsId_def list_all_iff)
qed

text \<open>The entry of \<^verbatim>\<open>userScores\<close> that the gathering loop leaves for a user with results.\<close>

lemma gathered_entry:
  assumes "resultsOf U st \<noteq> []"
  shows "\<exists>sd. map_of (gatherScores (map snd (contestResults st)) []) U = Some sd \<and>
              sd_totalScore sd =
                foldl jsAdd (Finite 0) (map Finite (map cr_score (resultsOf U st)))"
proof -
  let ?rs = "map snd (contestResults st)"
  let ?es = "gatherScores ?rs []"
  from assms have "U \<in> cr_userId ` set ?rs"
    by (auto simp: resultsOf_def filter_empty_conv)
  then have "U \<in> fst ` set ?es" by (simp add: gather_keys)
  then obtain sd where sd: "map_of ?es U = Some sd"
    by (metis domD dom_map_of_conv_image_fst)
  have "sd_totalScore sd = foldl jsAdd (Finite 0) (map Finite (map cr_score (resultsOf U st)))"
    using gather_total[of ?rs "[]" U] sd by (simp add: totalOf_def resultsOf_def)
  then show ?thesis using sd by blast
qed

text \<open>
  Users are stored under their own ids by \<^verbatim>\<open>createUser\<close>, and stay so under an
  \<^verbatim>\<open>updateUser\<close> whose data has no \<^verbatim>\<open>id\<close>.
\<close>

lemma list_all_update:
  "list_all P xs \<Longrightarrow> P (k, v) \<Longrightarrow> list_all P (AList.update k v xs)"
  by (induction xs) auto

lemma createUser_keeps_keyed:
  "usersKeyedById st \<Longrightarrow> usersKeyedById (snd (createUser insertUser now st))"
  by (simp add: usersKeyedById_def createUser_def Let_def list_all_update)

lemma updateUser_keeps_keyed:
  assumes "usersKeyedById st" and "pu_id userData = None"
  shows "usersKeyedById (snd (updateUser uid userData st))"
proof (cases "map_of (users st) uid")
  case None
  then show ?thesis using assms(1) by (simp add: updateUser_def)
next
  case (Some user)
  have k: "list_all (\<lambda>(k, user). u_id user = k) (users st)"
    using assms(1) by (simp add: usersKeyedById_def)
  have "u_id (spreadUser user userData) = uid"
    using keyed_lookup[OF k Some] assms(2) by (simp add: spreadUser_def)
  then have "list_all (\<lambda>(k, user). u_id user = k)
               (AList.update uid (spreadUser user userData) (users st))"
    using k by (intro list_all_update) simp_all
  then show ?thesis using Some by (simp add: updateUser_def usersKeyedById_def Let_def)
qed

text \<open>The example of the specification.\<close>

lemma leaderboard_example:
  "map (\<lambda>row. (lb_id row, lb_score row, lb_contestCount row)) (getLeaderboard rnd sampleContest)
     = [(2, Finite 140, Finite 2), (3, Finite 50, Finite 1)]"
  by (simp add: getLeaderboard_def arraySort_def byScoreDescending_def sampleContest_def
      sampleResult_def sampleUser_def Let_def roundToDouble_small)

text \<open>
  C2 (as amended). Let U be a user of MemStorage that is stored under the id it carries,
  where no other user with a contest result carries that id, that has at least one
  contest result, and whose scores are integers with absolute values that add up to at
  most 2^53. Then the leaderboard of MemStorage has exactly one row with the id U, and
  the score of that row is the sum of the scores of the contest results of U.
\<close>

theorem leaderboard_score_is_sum:
  assumes "ownsId U st" and "resultsOf U st \<noteq> []" and "safeScores U st"
  shows "\<exists>row. filter (\<lambda>row. lb_id row = U) (getLeaderboard rnd st) = [row] \<and>
               lb_score row = Finite (sum_list (map cr_score (resultsOf U st)))"
proof -
  let ?rs = "map snd (contestResults st)"
  let ?es = "gatherScores ?rs []"
  let ?xs = "map cr_score (resultsOf U st)"
  from gathered_entry[OF assms(2)] obtain sd where sd: "map_of ?es U = Some sd"
    and tot: "sd_totalScore sd = foldl jsAdd (Finite 0) (map Finite ?xs)" by blast
  have "\<bar>0::int\<bar> + sum_list (map abs ?xs) \<le> 2 ^ 53"
    using assms(3) by (simp add: safeScores_def o_def)
  from foldl_jsAdd_exact[OF this] tot
  have exact: "sd_totalScore sd = Finite (sum_list ?xs)" by simp
  have keys: "distinct (map fst ?es)" by (rule gather_distinct) simp
  have own: "carriesId (users st) U U" using assms(1) by (simp add: ownsId_def)
  have "fst ` set ?es = cr_userId ` set ?rs" by (simp add: gather_keys)
  then have others: "\<forall>k \<in> fst ` set ?es. k = U \<or> \<not> carriesId (users st) U k"
    using assms(1) by (auto simp: ownsId_def list_all_iff)
  from rows_one[OF own keys sd others, of rnd]
  obtain row where one: "filter (\<lambda>row. lb_id row = U) (leaderboardRows (users st) rnd ?es) = [row]"
    and score: "lb_score row = sd_totalScore sd" by blast
  have "filter (\<lambda>row. lb_id row = U) (getLeaderboard rnd st) = [row]"
    unfolding getLeaderboard_def by (rule filter_arraySort_single[OF one])
  then show ?thesis using score exact by auto
qed

theorem leaderboard_score_is_sum_witness:
  "ownsId 2 sampleContest \<and> resultsOf 2 sampleContest \<noteq> [] \<and> safeScores 2 sampleContest \<and>
   (\<exists>row. filter (\<lambda>row. lb_id row = 2) (getLeaderboard (\<lambda>k. 0) sampleContest) = [row] \<and>
          lb_score row = Finite 140)"
proof -
  have a: "ownsId 2 sampleContest"
    by (simp add: ownsId_def carriesId_def sampleContest_def sampleUser_def sampleResult_def)
  have c: "resultsOf 2 sampleContest \<noteq> []"
    by (simp add: resultsOf_def sampleContest_def sampleResult_def)
  have d: "safeScores 2 sampleContest"
    by (simp add: safeScores_def resultsOf_def sampleContest_def sampleResult_def)
  have s: "sum_list (map cr_score (resultsOf 2 sampleContest)) = 140"
    by (simp add: resultsOf_def sampleContest_def sampleResult_def)
  from leaderboard_score_is_sum[OF a c d, of "\<lambda>k. 0"] a c d show ?thesis
    unfolding s by blast
qed

text \<open>
  C2 as stated fails, in two ways. The totals are doubles: for user 2 with the scores
  2^53 and 1 the row has the score 2^53, and the sum is 2^53 + 1. And updateUser takes
  any partial user: after updateUser(3, {id: 2}) in the sample contest the leaderboard has
  two rows with the id 2, one with the total of user 2 and one with the total of the user
  stored under 3, and no row with the id 3.
\<close>

theorem leaderboard_score_counterexample:
  "ownsId 2 largeScores \<and>
   map cr_score (resultsOf 2 largeScores) = [9007199254740992, 1] \<and>
   map (\<lambda>row. (lb_id row, lb_score row)) (getLeaderboard (\<lambda>k. 0) largeScores)
     = [(2, Finite 9007199254740992)] \<and>
   sum_list (map cr_score (resultsOf 2 largeScores)) = 9007199254740993 \<and>
   map cr_score (resultsOf 3 (snd (updateUser 3 (idOnly 2) sampleContest))) = [50] \<and>
   map (\<lambda>row. (lb_id row, lb_score row))
     (getLeaderboard (\<lambda>k. 0) (snd (updateUser 3 (idOnly 2) sampleContest)))
     = [(2, Finite 140), (2, Finite 50)]"
proof -
  have a: "ownsId 2 largeScores"
    by (simp add: ownsId_def carriesId_def largeScores_def sampleUser_def sampleResult_def)
  have c: "map cr_score (resultsOf 2 largeScores) = [9007199254740992, 1]"
    by (simp add: resultsOf_def largeScores_def sampleResult_def)
  have d: "map (\<lambda>row. (lb_id row, lb_score row)) (getLeaderboard (\<lambda>k. 0) largeScores)
             = [(2, Finite 9007199254740992)]"
    by (simp add: getLeaderboard_def arraySort_def largeScores_def sampleResult_def
        sampleUser_def Let_def roundToDouble_limit roundToDouble_tie)
  have e: "sum_list (map cr_score (resultsOf 2 largeScores)) = 9007199254740993"
    by (simp add: c)
  have g: "map cr_score (resultsOf 3 (snd (updateUser 3 (idOnly 2) sampleContest))) = [50]"
    by (simp add: resultsOf_def updateUser_def sampleContest_def sampleResult_def Let_def)
  have f: "map (\<lambda>row. (lb_id row, lb_score row))
     (getLeaderboard (\<lambda>k. 0) (snd (updateUser 3 (idOnly 2) sampleContest)))
     = [(2, Finite 140), (2, Finite 50)]"
    by (simp add: getLeaderboard_def arraySort_def byScoreDescending_def updateUser_def
        spreadUser_def idOnly_def sampleContest_def sampleResult_def sampleUser_def Let_def
        roundToDouble_small)
  from a c d e g f show ?thesis by blast
qed

text \<open>
  C3. The claim asks for the number of distinct events. MemStorage adds one to
  contestCount for every contest result: a user with two results for the same event gets
  contestCount 2, where the number of distinct events is 1.
\<close>

theorem leaderboard_contestCount_counts_rows:
  "map (\<lambda>row. (lb_id row, lb_score row, lb_contestCount row))
     (getLeaderboard (\<lambda>k. 0) sameEventTwice) = [(2, Finite 140, Finite 2)] \<and>
   distinctEvents 2 sameEventTwice = 1"
  by (simp add: getLeaderboard_def arraySort_def sameEventTwice_def sampleResult_def
      sampleUser_def Let_def distinctEvents_def resultsOf_def roundToDouble_small)

section \<open>Properties of the routes and of createUser\<close>

text \<open>
  C7. The claim asks that creating an event or a resource be refused to a caller who is
  not an admin. Both handlers check only that the request is authenticated: the member
  of the sample club (role "member") gets 201 from POST /api/events and from
  POST /api/resources, and the event and the resource are stored.
\<close>

theorem member_creates_event_and_resource:
  "map_option u_role (req_user memberPostsEvent) = Some ''member'' \<and>
   fst (fst (post_api_events memberPostsEvent 50 sampleClub)) = 201 \<and>
   getEvent 2 sampleClub = None \<and>
   map_option ev_createdBy
     (getEvent 2 (snd (post_api_events memberPostsEvent 50 sampleClub))) = Some 2 \<and>
   map_option u_role (req_user memberPostsResource) = Some ''member'' \<and>
   fst (fst (post_api_resources memberPostsResource 50 sampleClub)) = 201 \<and>
   map_of (resources sampleClub) 1 = None \<and>
   map_option rs_userId
     (map_of (resources (snd (post_api_resources memberPostsResource 50 sampleClub))) 1)
     = Some 2"
  by (simp add: memberPostsEvent_def memberPostsResource_def sampleUser_def
      post_api_events_def post_api_resources_def sampleClub_def createEvent_def
      createResource_def getEvent_def Let_def orNull_def)

subsection \<open>Registering for an event\<close>

lemma distinct_update_vals:
  "distinct (map f (map snd xs)) \<Longrightarrow> f v \<notin> f ` snd ` set xs \<Longrightarrow>
     distinct (map f (map snd (AList.update k v xs)))"
proof (induction xs)
  case Nil
  then show ?case by simp
next
  case (Cons x xs)
  obtain k' v' where x: "x = (k', v')" by (cases x)
  from Cons.prems have d: "distinct (map f (map snd xs))" and nv: "f v \<notin> f ` snd ` set xs"
    and nv': "f v' \<notin> f ` snd ` set xs" and ne: "f v \<noteq> f v'"
    by (auto simp: x)
  show ?case
  proof (cases "k' = k")
    case True
    then show ?thesis using d nv by (auto simp: x)
  next
    case False
    have "f v' \<notin> f ` snd ` set (AList.update k v xs)"
    proof
      assume "f v' \<in> f ` snd ` set (AList.update k v xs)"
      then obtain e where e: "e \<in> set (AList.update k v xs)" "f v' = f (snd e)" by blast
      with set_update_subset[of k v xs] have "e = (k, v) \<or> e \<in> set xs" by blast
      with e nv' ne show False by auto
    qed
    then show ?thesis using False Cons.IH[OF d nv] by (auto simp: x)
  qed
qed

lemma create_keeps_unique:
  assumes u: "registeredOnce st" and "getEventRegistration E U st = None"
  shows "registeredOnce
           (snd (createEventRegistration \<lparr> ier_eventId = E, ier_userId = U \<rparr> now st))"
proof -
  let ?f = "\<lambda>reg. (er_eventId reg, er_userId reg)"
  let ?v = "fst (createEventRegistration \<lparr> ier_eventId = E, ier_userId = U \<rparr> now st)"
  have fv: "?f ?v = (E, U)" by (simp add: createEventRegistration_def Let_def)
  have "\<not> (\<exists>reg \<in> set (map snd (eventRegistrations st)).
              er_eventId reg = E \<and> er_userId reg = U)"
    using assms(2) unfolding getEventRegistration_def find_None_iff by blast
  then have "(E, U) \<notin> ?f ` snd ` set (eventRegistrations st)" by auto
  with fv have "?f ?v \<notin> ?f ` snd ` set (eventRegistrations st)" by simp
  with u have "distinct (map ?f (map snd
                 (AList.update (eventRegistrationId st) ?v (eventRegistrations st))))"
    unfolding registeredOnce_def by (rule distinct_update_vals)
  then show ?thesis by (simp add: registeredOnce_def createEventRegistration_def Let_def)
qed

lemma register_keeps_unique:
  assumes u: "registeredOnce st"
  shows "registeredOnce (snd (post_api_events_register req now st))"
proof (cases "req_user req")
  case None
  then show ?thesis using u by (simp add: post_api_events_register_def)
next
  case (Some user)
  note user = this
  show ?thesis
  proof (cases "req_id req")
    case None
    then show ?thesis using u user by (simp add: post_api_events_register_def)
  next
    case (Some eid)
    note eid = this
    show ?thesis
    proof (cases "getEvent eid st")
      case None
      then show ?thesis using u user eid by (simp add: post_api_events_register_def)
    next
      case (Some event)
      note event = this
      show ?thesis
      proof (cases "getEventRegistration eid (u_id user) st")
        case None
        from create_keeps_unique[OF u None, of now] show ?thesis
          using user eid event None
          by (simp add: post_api_events_register_def case_prod_unfold Let_def)
      next
        case (Some existing)
        then show ?thesis using u user eid event by (simp add: post_api_events_register_def)
      qed
    qed
  qed
qed

lemma register_rejects:
  assumes "req_user req = Some user" "req_id req = Some E"
    "getEventRegistration E (u_id user) st \<noteq> None"
  shows "snd (post_api_events_register req now st) = st \<and>
      fst (post_api_events_register req now st) \<in>
        {(400, Message ''Already registered for this event''),
         (404, Message ''Event not found'')}"
proof (cases "getEvent E st")
  case None
  then show ?thesis using assms by (simp add: post_api_events_register_def)
next
  case (Some event)
  from assms(3) obtain existing where "getEventRegistration E (u_id user) st = Some existing"
    by blast
  then show ?thesis using assms(1,2) Some by (simp add: post_api_events_register_def)
qed

text \<open>
  C8. When the authenticated user is already registered for event E, POST
  /api/events/E/register answers with an error (400 "Already registered for this
  event", or 404 when the event no longer exists) and leaves the store as it was; and
  the route never gives an (event, user) pair a second registration: a store in which
  every pair is registered at most once stays so.
\<close>

theorem duplicate_registration_rejected:
  "(req_user req = Some user \<and> req_id req = Some E \<and>
    getEventRegistration E (u_id user) st \<noteq> None \<longrightarrow>
      snd (post_api_events_register req now st) = st \<and>
      fst (post_api_events_register req now st) \<in>
        {(400, Message ''Already registered for this event''),
         (404, Message ''Event not found'')}) \<and>
   (registeredOnce st \<longrightarrow> registeredOnce (snd (post_api_events_register req now st)))"
  using register_keeps_unique[of st req now] register_rejects[of req user E st now]
  by blast

theorem duplicate_registration_rejected_witness:
  "req_user memberRegisters = Some (sampleUser 2 ''ann'' ''member'') \<and>
   req_id memberRegisters = Some 1 \<and>
   getEventRegistration 1 2 sampleClub \<noteq> None \<and> registeredOnce sampleClub \<and>
   post_api_events_register memberRegisters 9 sampleClub =
     ((400, Message ''Already registered for this event''), sampleClub) \<and>
   registeredOnce (snd (post_api_events_register memberRegisters 9 sampleClub))"
proof -
  have a: "req_user memberRegisters = Some (sampleUser 2 ''ann'' ''member'')"
    "req_id memberRegisters = Some 1"
    by (simp_all add: memberRegisters_def)
  have b: "getEventRegistration 1 (u_id (sampleUser 2 ''ann'' ''member'')) sampleClub \<noteq> None"
    by (simp add: getEventRegistration_def sampleClub_def sampleUser_def)
  have c: "registeredOnce sampleClub" by (simp add: registeredOnce_def sampleClub_def)
  have d: "getEvent 1 sampleClub \<noteq> None" by (simp add: getEvent_def sampleClub_def)
  have e: "post_api_events_register memberRegisters 9 sampleClub =
     ((400, Message ''Already registered for this event''), sampleClub)"
    using a b d by (auto simp: post_api_events_register_def)
  from duplicate_registration_rejected
         [of memberRegisters "sampleUser 2 ''ann'' ''member''" 1 sampleClub 9] a b c e
  show ?thesis by (simp add: sampleUser_def)
qed

subsection \<open>createUser\<close>

text \<open>
  C10. Whatever the argument of createUser carries, also a role or a level, the user
  that createUser returns has role "member" and level "beginner", and it is the user
  stored under the new id.
\<close>

theorem createUser_fixed_role_level:
  "u_role (fst (createUser insertUser now st)) = ''member'' \<and>
   u_level (fst (createUser insertUser now st)) = ''beginner'' \<and>
   getUser (userId st) (snd (createUser insertUser now st))
     = Some (fst (createUser insertUser now st))"
  by (simp add: createUser_def getUser_def Let_def update_conv')

section \<open>MemStorage against PostgreSQLStorage\<close>

text \<open>
  A call of \<^verbatim>\<open>markAsBestAnswer\<close> of PostgreSQLStorage that throws leaves the table as it
  was.
\<close>

lemma pg_markAsBestAnswer_rollback:
  "pg_markAsBestAnswer postId replyId db = (Inl e, db') \<Longrightarrow> db' = db"
  unfolding pg_markAsBestAnswer_def Let_def case_prod_unfold
  by (simp split: if_splits list.splits)

text \<open>
  C4. The two backends start from the same replies: reply 1 is the best answer of post 1,
  and there is no reply 99. The call markAsBestAnswer(1, 99) throws in both, with
  different messages; MemStorage has cleared the flag of reply 1 before it throws, and
  PostgreSQLStorage rolls its transaction back. The call getForumReply(1) that follows
  returns reply 1 with isBestAnswer false from MemStorage and with isBestAnswer true from
  PostgreSQLStorage.
\<close>

theorem backends_differ_after_failed_markAsBestAnswer:
  "sameState sampleForum sampleForumDb \<and>
   memRun failedMark sampleForum =
     [Threw ReplyNotFound, Returned (Some (sampleReply 1 1 False))] \<and>
   pgRun failedMark sampleForumDb =
     [Threw ReplyNotFoundOrWrongPost, Returned (Some (sampleReply 1 1 True))]"
proof -
  have a: "sameState sampleForum sampleForumDb"
    by (simp add: sameState_def wellTyped_def int32_def keyed_def sampleForum_def
        sampleForumDb_def sampleReply_def)
  have b: "memRun failedMark sampleForum =
     [Threw ReplyNotFound, Returned (Some (sampleReply 1 1 False))]"
    by (simp add: failedMark_def markAsBestAnswer_def getForumReply_def sampleForum_def
        sampleReply_def Let_def)
  have c: "pgRun failedMark sampleForumDb =
     [Threw ReplyNotFoundOrWrongPost, Returned (Some (sampleReply 1 1 True))]"
    by (simp add: failedMark_def pg_markAsBestAnswer_def pg_getForumReply_def int32_def
        sql_update_def sql_select_def sampleForumDb_def sampleReply_def Let_def)
  from a b c show ?thesis by blast
qed


end

